theory Spec2Isabelle
  imports Complex_Main "HOL-Library.Word"
begin

section \<open>Images and regions\<close>

text \<open>
  An image is OpenCV's \<open>cv::Mat\<close> restricted to 8-bit rasters: \<open>rows\<close>, \<open>cols\<close>, the
  channel count, and the pixel bytes; \<open>at_uchar m y x c\<close> is channel \<open>c\<close> of the pixel in
  row \<open>y\<close> and column \<open>x\<close> (\<open>mat.at<uchar>(y, x)\<close> for a single-channel image is channel 0).
  Dimensions are \<open>nat\<close>: a \<open>cv::Mat\<close> never has a negative size. All arithmetic of the
  source is on C++ \<open>int\<close>. Every row or column index it computes is bounded by \<open>rows\<close> or
  \<open>cols\<close>, and there the model uses \<open>int\<close> without wrap-around. The area in the confidence
  score is a product of two sizes and can pass the range of \<open>int\<close>: it is computed in 32
  bits (\<open>to_int32\<close> below).
\<close>

record Mat =
  rows :: nat
  cols :: nat
  channels :: nat
  at_uchar :: "nat \<Rightarrow> nat \<Rightarrow> nat \<Rightarrow> 8 word"

text \<open>\<open>cv::Mat::empty()\<close>: no element at all.\<close>

definition mat_empty :: "Mat \<Rightarrow> bool" where
  "mat_empty m \<longleftrightarrow> rows m * cols m = 0"

text \<open>\<open>struct Box { int x, y, w, h; }\<close> and \<open>struct ScoredBox { Box box; double confidence; }\<close>.
  A \<open>double\<close> is the exact real that it rounds, or \<open>NonFinite\<close> for what a division by zero
  yields (an infinity or NaN).\<close>

datatype Box = Box (box_x: int) (box_y: int) (box_w: int) (box_h: int)

datatype cdouble = Finite real | NonFinite

record ScoredBox =
  box :: Box
  confidence :: cdouble

text \<open>Exceptions derived from \<open>std::exception\<close> (OpenCV's \<open>cv::Exception\<close> is one),
  carrying their message.\<close>

datatype exn = Exception string

section \<open>Vision primitives used by the segmentation engine\<close>

text \<open>
  \<open>cv::threshold(src, dst, 0, 255, THRESH_BINARY_INV | THRESH_OTSU)\<close>: the level is chosen by
  Otsu's method, which belongs to the external library and is a parameter \<open>otsu\<close> of the
  model; the binarisation is \<open>dst = src > level ? 0 : 255\<close>. On a non-empty 8-bit
  single-channel image these calls do not raise; an image of another depth is the
  matter of \<open>segment_lines_any_depth\<close> below.
\<close>

definition threshold_binary_inv :: "8 word \<Rightarrow> Mat \<Rightarrow> Mat" where
  "threshold_binary_inv level src =
     src\<lparr>at_uchar := \<lambda>y x c. if at_uchar src y x c > level then 0 else 255\<rparr>"

definition threshold_otsu_inv :: "(Mat \<Rightarrow> 8 word) \<Rightarrow> Mat \<Rightarrow> Mat" where
  "threshold_otsu_inv otsu src = threshold_binary_inv (otsu src) src"

text \<open>\<open>cv::findNonZero(bin.row(yy), nonzero)\<close>: the columns of the non-zero pixels of row
  \<open>yy\<close>, in scan order. \<open>cv::countNonZero\<close> counts them.\<close>

definition findNonZero_row :: "Mat \<Rightarrow> nat \<Rightarrow> nat list" where
  "findNonZero_row bin yy = filter (\<lambda>x. at_uchar bin yy x 0 \<noteq> 0) [0..<cols bin]"

definition countNonZero_row :: "Mat \<Rightarrow> nat \<Rightarrow> int" where
  "countNonZero_row bin yy = int (length (filter (\<lambda>x. at_uchar bin yy x 0 \<noteq> 0) [0..<cols bin]))"

definition countNonZero :: "Mat \<Rightarrow> int" where
  "countNonZero m = sum_list (map (countNonZero_row m) [0..<rows m])"

text \<open>\<open>img(cv::Rect(x, y, w, h))\<close>: the sub-image; OpenCV raises unless the rectangle lies
  inside the image.\<close>

definition crop :: "Mat \<Rightarrow> Box \<Rightarrow> Mat" where
  "crop m r =
     \<lparr>rows = nat (box_h r), cols = nat (box_w r), channels = channels m,
      at_uchar = \<lambda>y x c. at_uchar m (nat (box_y r) + y) (nat (box_x r) + x) c\<rparr>"

definition mat_roi :: "Mat \<Rightarrow> Box \<Rightarrow> exn + Mat" where
  "mat_roi m r =
     (if 0 \<le> box_x r \<and> 0 \<le> box_w r \<and> box_x r + box_w r \<le> int (cols m) \<and>
         0 \<le> box_y r \<and> 0 \<le> box_h r \<and> box_y r + box_h r \<le> int (rows m)
      then Inr (crop m r)
      else Inl (Exception ''roi outside the image''))"

text \<open>\<open>cv::boundingRect\<close> of a point sequence: the smallest upright rectangle that holds
  every point; points are \<open>(x, y)\<close>.\<close>

definition boundingRect :: "(int \<times> int) list \<Rightarrow> Box" where
  "boundingRect c =
     (case c of [] \<Rightarrow> Box 0 0 0 0
      | p # ps \<Rightarrow>
          let x0 = fold min (map fst ps) (fst p); x1 = fold max (map fst ps) (fst p);
              y0 = fold min (map snd ps) (snd p); y1 = fold max (map snd ps) (snd p)
          in Box x0 y0 (x1 - x0 + 1) (y1 - y0 + 1))"

section \<open>Segmentation engine (segmentation.cpp)\<close>

text \<open>The body of the inner loop of \<open>segment_lines\<close> over the rows \<open>yy = y0 .. y1\<close> of a band:
  it narrows \<open>x_min\<close> and widens \<open>x_max\<close> by the first and last non-zero column of the row.
  With \<open>y1 = y - 1\<close> the rows \<open>y0 \<le> yy \<le> y1\<close> are the list \<open>[y0..<y]\<close>, empty when \<open>y1 < y0\<close>.\<close>

definition extent_step :: "Mat \<Rightarrow> nat \<Rightarrow> int \<times> int \<Rightarrow> int \<times> int" where
  "extent_step bin yy acc =
     (case acc of (x_min, x_max) \<Rightarrow>
        let nonzero = findNonZero_row bin yy in
        if nonzero \<noteq> [] then
          (let x0 = int (hd nonzero); x1 = int (last nonzero)
           in (min x_min x0, max x_max x1))
        else (x_min, x_max))"

text \<open>One iteration of the row loop of \<open>segment_lines\<close>, on the state
  \<open>(in_line, y0, boxes)\<close>. The band closed at row \<open>y\<close> is the rows \<open>y0 .. y - 1\<close>.\<close>

definition line_step ::
  "Mat \<Rightarrow> int list \<Rightarrow> int \<Rightarrow> int \<Rightarrow> nat \<Rightarrow> bool \<times> nat \<times> Box list \<Rightarrow> bool \<times> nat \<times> Box list" where
  "line_step bin proj min_line_height min_line_sum y s =
     (case s of (in_line, y0, boxes) \<Rightarrow>
        if proj ! y > min_line_sum then
          (if \<not> in_line then (True, y, boxes) else (in_line, y0, boxes))
        else
          (if in_line then
             (let y1 = int y - 1 in
              if y1 - int y0 + 1 \<ge> min_line_height then
                (case fold (extent_step bin) [y0..<y] (int (cols bin), 0) of
                   (x_min, x_max) \<Rightarrow>
                     if x_max > x_min
                     then (False, y0, boxes @ [Box x_min (int y0) (x_max - x_min + 1) (y1 - int y0 + 1)])
                     else (False, y0, boxes))
              else (False, y0, boxes))
           else (in_line, y0, boxes)))"

text \<open>\<open>Segmenter::segment_lines(img, err_msg)\<close>: the result is the box list and the new
  value of the by-reference \<open>err_msg\<close>.\<close>

definition segment_lines :: "(Mat \<Rightarrow> 8 word) \<Rightarrow> Mat \<Rightarrow> string \<Rightarrow> Box list \<times> string" where
  "segment_lines otsu img err_msg =
     (if mat_empty img \<or> channels img \<noteq> 1 then
        ([], ''Input image must be non-empty and grayscale'')
      else
        (let bin = threshold_otsu_inv otsu img;
             proj = map (countNonZero_row bin) [0..<rows bin];
             min_line_height = 8;
             min_line_sum = int (cols bin) div 20
         in case fold (line_step bin proj min_line_height min_line_sum) [0..<rows bin] (False, 0, []) of
              (in_line, y0, boxes) \<Rightarrow> (boxes, [])))"

text \<open>\<open>Segmenter::segment_words\<close>: \<open>cv::findContours\<close> (external retrieval of the outer
  contours) is the parameter \<open>findContours\<close>.\<close>

definition word_step :: "(int \<times> int) list \<Rightarrow> Box list \<Rightarrow> Box list" where
  "word_step c boxes =
     (let r = boundingRect c in
      if box_w r > 5 \<and> box_h r > 5 then boxes @ [Box (box_x r) (box_y r) (box_w r) (box_h r)]
      else boxes)"

definition segment_words ::
  "(Mat \<Rightarrow> 8 word) \<Rightarrow> (Mat \<Rightarrow> (int \<times> int) list list) \<Rightarrow> Mat \<Rightarrow> string \<Rightarrow> Box list \<times> string" where
  "segment_words otsu findContours img err_msg =
     (if mat_empty img \<or> channels img \<noteq> 1 then
        ([], ''Input image must be non-empty and grayscale'')
      else
        (let bin = threshold_otsu_inv otsu img;
             contours = findContours bin
         in (fold word_step contours [], [])))"

text \<open>The value of a C++ \<open>int\<close> expression whose exact result is \<open>v\<close>. An \<open>int\<close> has 32 bits;
  a result outside them wraps around (two's complement, which the compilers in use
  produce where the language leaves signed overflow undefined).\<close>

definition to_int32 :: "int \<Rightarrow> int" where
  "to_int32 v = sint (word_of_int v :: 32 word)"

text \<open>\<open>Segmenter::segment_with_confidence\<close>. The crop \<open>img(cv::Rect(...))\<close> can raise and
  nothing catches it here, so the result is a sum. In
  \<open>(double)cv::countNonZero(bin) / (bin.rows * bin.cols)\<close> the count is the \<open>int\<close> that
  \<open>cv::countNonZero\<close> returns, the product is an \<open>int\<close> product, and the division is a
  \<open>double\<close> division, whose divisor may be zero.\<close>

definition score_step ::
  "(Mat \<Rightarrow> 8 word) \<Rightarrow> Mat \<Rightarrow> Box \<Rightarrow> exn + ScoredBox list \<Rightarrow> exn + ScoredBox list" where
  "score_step otsu img line acc =
     (case acc of Inl e \<Rightarrow> Inl e
      | Inr scored \<Rightarrow>
          (case mat_roi img line of Inl e \<Rightarrow> Inl e
           | Inr roi \<Rightarrow>
               let bin = threshold_otsu_inv otsu roi;
                   nonzero = to_int32 (countNonZero bin);
                   area = to_int32 (int (rows bin) * int (cols bin));
                   conf = (if area = 0 then NonFinite
                           else Finite (real_of_int nonzero / real_of_int area))
               in Inr (scored @ [\<lparr>box = line, confidence = conf\<rparr>])))"

definition segment_with_confidence ::
  "(Mat \<Rightarrow> 8 word) \<Rightarrow> Mat \<Rightarrow> string \<Rightarrow> exn + (ScoredBox list \<times> string)" where
  "segment_with_confidence otsu img err_msg =
     (case segment_lines otsu img err_msg of
        (lines, err_msg1) \<Rightarrow>
          if err_msg1 \<noteq> [] then Inr ([], err_msg1)
          else (case fold (score_step otsu img) lines (Inr []) of
                  Inl e \<Rightarrow> Inl e
                | Inr scored \<Rightarrow> Inr (scored, [])))"

text \<open>
  A \<open>cv::Mat\<close> of any element depth, as a caller of the batch interface can pass it: the
  depth, and the raster with its size and channel count (its bytes are the pixels when
  the depth is \<open>CV_8U\<close>, and are not read otherwise). \<open>CV_16U\<close> is left out: whether Otsu's
  method takes it depends on the version of the library.
\<close>

datatype mat_depth = CV_8U | CV_8S | CV_16S | CV_32S | CV_32F | CV_64F

record cvMat =
  elem_depth :: mat_depth
  raster :: Mat

text \<open>\<open>Segmenter::segment_lines\<close> on such an image. The guard looks at \<open>empty()\<close> and
  \<open>channels()\<close> only. An image that passes it reaches \<open>cv::threshold\<close> with \<open>THRESH_OTSU\<close>,
  which raises a \<open>cv::Exception\<close> unless the elements are 8-bit; nothing in the function
  catches it. On an 8-bit image the function is \<open>segment_lines\<close> above.\<close>

definition segment_lines_any_depth ::
  "(Mat \<Rightarrow> 8 word) \<Rightarrow> cvMat \<Rightarrow> string \<Rightarrow> exn + (Box list \<times> string)" where
  "segment_lines_any_depth otsu img err_msg =
     (if mat_empty (raster img) \<or> channels (raster img) \<noteq> 1 then
        Inr ([], ''Input image must be non-empty and grayscale'')
      else if elem_depth img \<noteq> CV_8U then
        Inl (Exception ''threshold: THRESH_OTSU expects an 8-bit image'')
      else Inr (segment_lines otsu (raster img) err_msg))"

text \<open>\<open>Segmenter::segment_batch\<close>. The loop is an OpenMP \<open>parallel for\<close>: iteration \<open>i\<close>
  writes only slot \<open>i\<close> of the two pre-sized vectors. The order in which the iterations
  run is the parameter \<open>schedule\<close>, a list of the indices. The loop body has no handler:
  an exception raised in an iteration leaves the loop, and the call ends without a
  result (in a build with OpenMP the runtime ends the program instead).\<close>

definition batch_iteration ::
  "(Mat \<Rightarrow> 8 word) \<Rightarrow> cvMat list \<Rightarrow> nat \<Rightarrow> exn + (Box list list \<times> string list) \<Rightarrow>
     exn + (Box list list \<times> string list)" where
  "batch_iteration otsu imgs i s =
     (case s of Inl e \<Rightarrow> Inl e
      | Inr (results, out_errors) \<Rightarrow>
          (case segment_lines_any_depth otsu (imgs ! i) [] of
             Inl e \<Rightarrow> Inl e
           | Inr (r, err) \<Rightarrow> Inr (results[i := r], out_errors[i := err])))"

definition vector_resize :: "nat \<Rightarrow> string list \<Rightarrow> string list" where
  "vector_resize n v = take n v @ replicate (n - length v) []"

definition segment_batch ::
  "(Mat \<Rightarrow> 8 word) \<Rightarrow> nat list \<Rightarrow> cvMat list \<Rightarrow> string list \<Rightarrow>
     exn + (Box list list \<times> string list)" where
  "segment_batch otsu schedule imgs out_errors =
     fold (batch_iteration otsu imgs) schedule
       (Inr (replicate (length imgs) [], vector_resize (length imgs) out_errors))"

section \<open>The line bands, as the specification words them\<close>

text \<open>A row is an ink row when its foreground count exceeds \<open>cols / 20\<close>.\<close>

definition ink_row :: "Mat \<Rightarrow> nat \<Rightarrow> bool" where
  "ink_row bin y \<longleftrightarrow> countNonZero_row bin y > int (cols bin) div 20"

text \<open>A closed band \<open>a .. c - 1\<close>: it is entered at row \<open>a\<close> (the row above, if any, is not an
  ink row), all its rows are ink rows, and it is left at row \<open>c\<close>, a row of the image that
  is not an ink row.\<close>

definition closed_band :: "Mat \<Rightarrow> nat \<Rightarrow> nat \<Rightarrow> bool" where
  "closed_band bin a c \<longleftrightarrow>
     a < c \<and> c < rows bin \<and> (\<forall>k. a \<le> k \<and> k < c \<longrightarrow> ink_row bin k) \<and> \<not> ink_row bin c \<and>
     (a = 0 \<or> \<not> ink_row bin (a - 1))"

text \<open>The foreground columns of the rows \<open>a .. c - 1\<close>.\<close>

definition band_columns :: "Mat \<Rightarrow> nat \<Rightarrow> nat \<Rightarrow> nat set" where
  "band_columns bin a c = {x. x < cols bin \<and> (\<exists>yy. a \<le> yy \<and> yy < c \<and> at_uchar bin yy x 0 \<noteq> 0)}"

text \<open>The Region invariant of the data model, for an image of the given size.\<close>

definition region_ok :: "Mat \<Rightarrow> Box \<Rightarrow> bool" where
  "region_ok img b \<longleftrightarrow>
     box_w b > 0 \<and> box_h b > 0 \<and> box_x b \<ge> 0 \<and> box_y b \<ge> 0 \<and>
     box_x b + box_w b \<le> int (cols img) \<and> box_y b + box_h b \<le> int (rows img)"

text \<open>A kept band spans at least 8 rows and its foreground reaches over more than one
  column; its box runs from the least to the greatest foreground column.\<close>

definition kept_band :: "Mat \<Rightarrow> nat \<Rightarrow> nat \<Rightarrow> bool" where
  "kept_band bin a c \<longleftrightarrow>
     closed_band bin a c \<and> int c - int a \<ge> 8 \<and> Min (band_columns bin a c) < Max (band_columns bin a c)"

definition band_box :: "Mat \<Rightarrow> nat \<Rightarrow> nat \<Rightarrow> Box" where
  "band_box bin a c =
     Box (int (Min (band_columns bin a c))) (int a)
         (int (Max (band_columns bin a c)) - int (Min (band_columns bin a c)) + 1)
         (int c - int a)"

text \<open>The state of the row loop after the rows \<open>0 .. n - 1\<close>.\<close>

definition line_inv :: "Mat \<Rightarrow> nat \<Rightarrow> bool \<times> nat \<times> Box list \<Rightarrow> bool" where
  "line_inv bin n s \<longleftrightarrow>
     (case s of (in_line, y0, boxes) \<Rightarrow>
        (in_line \<longrightarrow> y0 < n \<and> (\<forall>k. y0 \<le> k \<and> k < n \<longrightarrow> ink_row bin k) \<and>
                     (y0 = 0 \<or> \<not> ink_row bin (y0 - 1))) \<and>
        (\<not> in_line \<longrightarrow> n = 0 \<or> \<not> ink_row bin (n - 1)) \<and>
        set boxes = {band_box bin a c | a c. kept_band bin a c \<and> c < n} \<and>
        sorted_wrt (\<lambda>b b'. box_y b + box_h b < box_y b') boxes)"

text \<open>The foreground columns of a list of rows.\<close>

definition row_columns :: "Mat \<Rightarrow> nat list \<Rightarrow> nat set" where
  "row_columns bin ys = {x. x < cols bin \<and> (\<exists>yy\<in>set ys. at_uchar bin yy x 0 \<noteq> 0)}"

text \<open>The foreground density of a region, in the words of the specification: the
  foreground pixels of the region's crop are the pixels that are not brighter than the
  Otsu level of the crop, and the density is their number over the number of pixels of
  the region.\<close>

definition foreground :: "(Mat \<Rightarrow> 8 word) \<Rightarrow> Mat \<Rightarrow> (nat \<times> nat) set" where
  "foreground otsu m = {(y, x). y < rows m \<and> x < cols m \<and> at_uchar m y x 0 \<le> otsu m}"

definition density :: "(Mat \<Rightarrow> 8 word) \<Rightarrow> Mat \<Rightarrow> Box \<Rightarrow> real" where
  "density otsu img b = real (card (foreground otsu (crop img b))) / real_of_int (box_w b * box_h b)"

section \<open>External collaborators of the preprocessing pipeline\<close>

text \<open>
  Leptonica's image \<open>struct Pix\<close>: width, height, depth and the pixel values read by
  \<open>pixGetPixel(pix, x, y, &val)\<close>. Leptonica is a C library: a call that fails returns a
  null pointer, modelled as \<open>None\<close>, and never raises. The calls of the source are the
  fields of \<open>leptonica\<close>, with the constant arguments of the source folded in.
\<close>

record Pix =
  pix_w :: nat
  pix_h :: nat
  pix_d :: nat
  pix_data :: "nat \<Rightarrow> nat \<Rightarrow> 32 word"

type_synonym lbox = "int \<times> int \<times> int \<times> int"

record leptonica =
  pixCreate :: "nat \<Rightarrow> nat \<Rightarrow> nat \<Rightarrow> Pix option"
  pixConvertTo8 :: "Pix \<Rightarrow> Pix option"
  pixOtsuAdaptiveThreshold :: "Pix \<Rightarrow> Pix option"
  pixAdaptiveThreshold :: "Pix \<Rightarrow> Pix option"
  pixAnd :: "Pix \<Rightarrow> Pix \<Rightarrow> Pix option"
  pixFindSkewAndDeskew :: "Pix \<Rightarrow> Pix option"
  pixFindPageForeground :: "Pix \<Rightarrow> lbox list option"
  pixClipRectangle :: "Pix \<Rightarrow> lbox \<Rightarrow> Pix option"
  pixOpenBrick :: "Pix \<Rightarrow> nat \<Rightarrow> nat \<Rightarrow> Pix option"
  pixCloseBrick :: "Pix \<Rightarrow> nat \<Rightarrow> nat \<Rightarrow> Pix option"

text \<open>
  The OpenCV algorithms the pipeline calls. Each may raise a \<open>cv::Exception\<close> (for
  instance \<open>cv::adaptiveThreshold\<close> on an image that is not 8-bit single-channel), so each
  returns a sum. Floating-point values (\<open>float\<close>, \<open>double\<close>) are reals. \<open>warp_quad\<close> stands for
  the tail of \<open>dewarp\<close> after its last early return: the \<open>std::sort\<close> of the four corners by
  \<open>y\<close> (whose order among equal keys is unspecified), the edge lengths in \<open>float\<close>,
  \<open>cv::getPerspectiveTransform\<close> and \<open>cv::warpPerspective\<close>. Memory exhaustion
  inside an image operation (a failing \<open>clone\<close> or \<open>cv::Mat\<close> constructor) is not modelled;
  the one place where the source handles a failed creation, the constructor of
  \<open>HybridPreprocessor\<close>, is.
\<close>

datatype adaptive_method = ADAPTIVE_THRESH_MEAN_C | ADAPTIVE_THRESH_GAUSSIAN_C

record RotatedRect =
  center :: "real \<times> real"
  angle :: real

record opencv =
  cv_cvtColor_BGR2GRAY :: "Mat \<Rightarrow> exn + Mat"
  cv_resize :: "Mat \<Rightarrow> real \<Rightarrow> real \<Rightarrow> exn + Mat"
  cv_adaptiveThreshold :: "Mat \<Rightarrow> adaptive_method \<Rightarrow> nat \<Rightarrow> real \<Rightarrow> exn + Mat"
  cv_findNonZero :: "Mat \<Rightarrow> exn + (int \<times> int) list"
  cv_minAreaRect :: "(int \<times> int) list \<Rightarrow> exn + RotatedRect"
  cv_getRotationMatrix2D :: "real \<times> real \<Rightarrow> real \<Rightarrow> real \<Rightarrow> real list"
  cv_warpAffine :: "Mat \<Rightarrow> real list \<Rightarrow> nat \<times> nat \<Rightarrow> exn + Mat"
  cv_findContours :: "Mat \<Rightarrow> exn + (int \<times> int) list list"
  cv_contourArea :: "(int \<times> int) list \<Rightarrow> real"
  cv_approxPolyDP :: "(int \<times> int) list \<Rightarrow> real \<Rightarrow> bool \<Rightarrow> exn + (int \<times> int) list"
  warp_quad :: "Mat \<Rightarrow> (int \<times> int) list \<Rightarrow> exn + Mat"
  cv_medianBlur :: "Mat \<Rightarrow> nat \<Rightarrow> exn + Mat"
  cv_bilateralFilter :: "Mat \<Rightarrow> nat \<Rightarrow> real \<Rightarrow> real \<Rightarrow> exn + Mat"

text \<open>Sequencing of calls that may raise: the first exception ends the sequence.\<close>

definition then_do :: "exn + 'a \<Rightarrow> ('a \<Rightarrow> exn + 'b) \<Rightarrow> exn + 'b" where
  "then_do m f = (case m of Inl e \<Rightarrow> Inl e | Inr v \<Rightarrow> f v)"

text \<open>\<open>cv::cvtColor(src, dst, cv::COLOR_BGR2GRAY)\<close>: whatever pixels the library computes,
  the destination is a single-channel image.\<close>

definition cvtColor_BGR2GRAY :: "opencv \<Rightarrow> Mat \<Rightarrow> exn + Mat" where
  "cvtColor_BGR2GRAY C src =
     (case cv_cvtColor_BGR2GRAY C src of Inl e \<Rightarrow> Inl e | Inr dst \<Rightarrow> Inr (dst\<lparr>channels := 1\<rparr>))"

text \<open>\<open>cv::Mat()\<close>, the empty image, and \<open>img.clone()\<close>, a copy with the same content.\<close>

definition Mat_default :: Mat where
  "Mat_default = \<lparr>rows = 0, cols = 0, channels = 1, at_uchar = \<lambda>y x c. 0\<rparr>"

definition clone :: "Mat \<Rightarrow> Mat" where
  "clone img = img"

section \<open>The baseline stages (preprocessing.cpp)\<close>

text \<open>The calls of \<open>print_image_info\<close> write to standard output only and are left out.\<close>

definition to_grayscale :: "opencv \<Rightarrow> Mat \<Rightarrow> exn + Mat" where
  "to_grayscale C img = cvtColor_BGR2GRAY C img"

definition resize_image :: "opencv \<Rightarrow> Mat \<Rightarrow> real \<Rightarrow> exn + Mat" where
  "resize_image C img scale = cv_resize C img scale scale"

definition adaptive_gaussian_threshold :: "opencv \<Rightarrow> Mat \<Rightarrow> exn + Mat" where
  "adaptive_gaussian_threshold C img = cv_adaptiveThreshold C img ADAPTIVE_THRESH_GAUSSIAN_C 31 10"

definition deskew :: "opencv \<Rightarrow> Mat \<Rightarrow> exn + Mat" where
  "deskew C bin_img =
     then_do (cv_findNonZero C bin_img) (\<lambda>points.
       if points = [] then Inr (clone bin_img)
       else then_do (cv_minAreaRect C points) (\<lambda>rbox.
         let angle0 = angle rbox;
             angle1 = (if angle0 < - 45 then angle0 + 90 else angle0);
             rot_mat = cv_getRotationMatrix2D C (center rbox) angle1 1
         in cv_warpAffine C bin_img rot_mat (cols bin_img, rows bin_img)))"

text \<open>The loop of \<open>dewarp\<close> that finds the index of the contour of largest area.\<close>

definition largest_contour :: "opencv \<Rightarrow> (int \<times> int) list list \<Rightarrow> nat" where
  "largest_contour C contours =
     fold (\<lambda>i largest.
             if cv_contourArea C (contours ! i) > cv_contourArea C (contours ! largest) then i
             else largest)
          [1..<length contours] 0"

definition dewarp :: "opencv \<Rightarrow> Mat \<Rightarrow> exn + Mat" where
  "dewarp C img =
     then_do (if channels img = 3 then cvtColor_BGR2GRAY C img else Inr img) (\<lambda>gray.
     then_do (cv_adaptiveThreshold C gray ADAPTIVE_THRESH_MEAN_C 31 10) (\<lambda>bin.
     then_do (cv_findContours C bin) (\<lambda>contours.
       if contours = [] then Inr (clone img)
       else then_do (cv_approxPolyDP C (contours ! largest_contour C contours) 20 True) (\<lambda>quad.
         if length quad \<noteq> 4 then Inr (clone img)
         else warp_quad C img quad))))"

definition invoice_denoise :: "opencv \<Rightarrow> Mat \<Rightarrow> exn + Mat" where
  "invoice_denoise C img =
     then_do (cv_medianBlur C img 3) (\<lambda>med. cv_bilateralFilter C med 9 75 75)"

section \<open>The Tesseract strategies (tesseract_preprocessing.cpp)\<close>

text \<open>
  \<open>TesseractPreprocessor::mat_to_pix\<close>. A null result is \<open>None\<close>. The loop stores every
  pixel with \<open>pixSetPixel\<close>, which ignores positions outside the Pix. The colour branch
  converts to grayscale and calls \<open>mat_to_pix\<close> on the result, which is single-channel:
  that call is \<open>mat_to_pix_gray\<close>, the empty check and the single-channel branch.
\<close>

definition mat_to_pix_gray :: "leptonica \<Rightarrow> Mat \<Rightarrow> Pix option" where
  "mat_to_pix_gray L mat =
     (if mat_empty mat then None
      else (case pixCreate L (cols mat) (rows mat) 8 of
              None \<Rightarrow> None
            | Some pix \<Rightarrow>
                Some (pix\<lparr>pix_data := \<lambda>x y.
                        if x < cols mat \<and> y < rows mat \<and> x < pix_w pix \<and> y < pix_h pix
                        then ucast (at_uchar mat y x 0) else pix_data pix x y\<rparr>)))"

definition mat_to_pix :: "leptonica \<Rightarrow> opencv \<Rightarrow> Mat \<Rightarrow> exn + Pix option" where
  "mat_to_pix L C mat =
     (if mat_empty mat then Inr None
      else if channels mat = 1 then Inr (mat_to_pix_gray L mat)
      else if channels mat = 3 then
        then_do (cvtColor_BGR2GRAY C mat) (\<lambda>gray. Inr (mat_to_pix_gray L gray))
      else Inr None)"

text \<open>\<open>TesseractPreprocessor::pix_to_mat\<close>: the result has the size of the Pix passed in
  and the pixels of its 8-bit version.\<close>

definition pix_to_mat :: "leptonica \<Rightarrow> Pix option \<Rightarrow> Mat" where
  "pix_to_mat L p =
     (case p of None \<Rightarrow> Mat_default
      | Some pix \<Rightarrow>
          let width = pix_w pix; height = pix_h pix; depth = pix_d pix in
          (case (if depth \<noteq> 8 then pixConvertTo8 L pix else Some pix) of
             None \<Rightarrow> Mat_default
           | Some pix8 \<Rightarrow>
               \<lparr>rows = height, cols = width, channels = 1,
                at_uchar = \<lambda>y x c. if y < height \<and> x < width then ucast (pix_data pix8 x y) else 0\<rparr>))"

definition apply_tesseract_thresholding :: "leptonica \<Rightarrow> Pix \<Rightarrow> Mat" where
  "apply_tesseract_thresholding L pix =
     (case pixOtsuAdaptiveThreshold L pix of
        None \<Rightarrow> pix_to_mat L (Some pix)
      | Some pix_otsu \<Rightarrow>
          (case pixAdaptiveThreshold L pix of
             None \<Rightarrow> pix_to_mat L (Some pix)
           | Some pix_local \<Rightarrow>
               (case pixAnd L pix_otsu pix_local of
                  Some pix_combined \<Rightarrow> pix_to_mat L (Some pix_combined)
                | None \<Rightarrow> pix_to_mat L (Some pix_otsu))))"

definition apply_tesseract_deskewing :: "leptonica \<Rightarrow> Pix \<Rightarrow> Mat" where
  "apply_tesseract_deskewing L pix =
     (case pixFindSkewAndDeskew L pix of
        None \<Rightarrow> pix_to_mat L (Some pix)
      | Some pix_skew \<Rightarrow> pix_to_mat L (Some pix_skew))"

text \<open>In \<open>apply_tesseract_dewarping\<close> the Boxa is a list of boxes, and
  \<open>boxaGetBox(boxa, 0, L_CLONE)\<close> of a non-empty one is its first box.\<close>

definition apply_tesseract_dewarping :: "leptonica \<Rightarrow> Pix \<Rightarrow> Mat" where
  "apply_tesseract_dewarping L pix =
     (case pixFindPageForeground L pix of
        None \<Rightarrow> pix_to_mat L (Some pix)
      | Some boxa \<Rightarrow>
          (case boxa of
             [] \<Rightarrow> pix_to_mat L (Some pix)
           | box0 # others \<Rightarrow>
               (case pixClipRectangle L pix box0 of
                  None \<Rightarrow> pix_to_mat L (Some pix)
                | Some pix_crop \<Rightarrow> pix_to_mat L (Some pix_crop))))"

definition apply_tesseract_denoising :: "leptonica \<Rightarrow> Pix \<Rightarrow> Mat" where
  "apply_tesseract_denoising L pix =
     (case pixOpenBrick L pix 2 2 of
        None \<Rightarrow> pix_to_mat L (Some pix)
      | Some pix_open \<Rightarrow>
          (case pixCloseBrick L pix_open 1 1 of
             None \<Rightarrow> pix_to_mat L (Some pix)
           | Some pix_close \<Rightarrow> pix_to_mat L (Some pix_close)))"

text \<open>
  The public strategies. Each runs inside \<open>try\<close>: convert the image, return a copy of the
  input when the conversion yields null, otherwise return what the algorithm produces;
  \<open>catch (const std::exception&)\<close> returns a copy of the input. The timing string each one
  records is left out.
\<close>

definition tesseract_adaptive_threshold :: "leptonica \<Rightarrow> opencv \<Rightarrow> Mat \<Rightarrow> exn + Mat" where
  "tesseract_adaptive_threshold L C img =
     (case then_do (mat_to_pix L C img) (\<lambda>p.
             case p of None \<Rightarrow> Inr (clone img)
             | Some pix \<Rightarrow> Inr (apply_tesseract_thresholding L pix)) of
        Inr result \<Rightarrow> Inr result
      | Inl e \<Rightarrow> Inr (clone img))"

definition tesseract_deskew :: "leptonica \<Rightarrow> opencv \<Rightarrow> Mat \<Rightarrow> exn + Mat" where
  "tesseract_deskew L C img =
     (case then_do (mat_to_pix L C img) (\<lambda>p.
             case p of None \<Rightarrow> Inr (clone img)
             | Some pix \<Rightarrow> Inr (apply_tesseract_deskewing L pix)) of
        Inr result \<Rightarrow> Inr result
      | Inl e \<Rightarrow> Inr (clone img))"

definition tesseract_dewarp :: "leptonica \<Rightarrow> opencv \<Rightarrow> Mat \<Rightarrow> exn + Mat" where
  "tesseract_dewarp L C img =
     (case then_do (mat_to_pix L C img) (\<lambda>p.
             case p of None \<Rightarrow> Inr (clone img)
             | Some pix \<Rightarrow> Inr (apply_tesseract_dewarping L pix)) of
        Inr result \<Rightarrow> Inr result
      | Inl e \<Rightarrow> Inr (clone img))"

definition tesseract_denoise :: "leptonica \<Rightarrow> opencv \<Rightarrow> Mat \<Rightarrow> exn + Mat" where
  "tesseract_denoise L C img =
     (case then_do (mat_to_pix L C img) (\<lambda>p.
             case p of None \<Rightarrow> Inr (clone img)
             | Some pix \<Rightarrow> Inr (apply_tesseract_denoising L pix)) of
        Inr result \<Rightarrow> Inr result
      | Inl e \<Rightarrow> Inr (clone img))"

section \<open>The hybrid stages and the enhanced pipeline\<close>

text \<open>
  \<open>class HybridPreprocessor\<close>: its state is the flag \<open>tesseract_available_\<close>, set once by
  the constructor. Each \<open>smart_\<close> stage tries the Tesseract strategy inside
  \<open>try { return ...; } catch (const std::exception&) { }\<close> when the flag is set, and
  otherwise, or after a caught exception, runs the OpenCV code that follows, which no
  handler guards.
\<close>

record HybridPreprocessor =
  tesseract_available :: bool

text \<open>\<open>TesseractPreprocessor::is_available\<close> returns \<open>true\<close>. The constructor of
  \<open>HybridPreprocessor\<close> starts with the flag \<open>false\<close>, creates the Tesseract preprocessor
  and stores what \<open>is_available\<close> answers; if that raises a \<open>std::exception\<close> (the allocation
  of \<open>std::make_unique\<close> can), the handler leaves the flag \<open>false\<close>. Whether it raises is
  the parameter.\<close>

definition is_available :: bool where
  "is_available = True"

definition HybridPreprocessor_init :: "bool \<Rightarrow> HybridPreprocessor" where
  "HybridPreprocessor_init construction_raises =
     \<lparr>tesseract_available = (if construction_raises then False else is_available)\<rparr>"

definition smart_adaptive_threshold ::
  "leptonica \<Rightarrow> opencv \<Rightarrow> HybridPreprocessor \<Rightarrow> Mat \<Rightarrow> exn + Mat" where
  "smart_adaptive_threshold L C hp img =
     (case (if tesseract_available hp then
              (case tesseract_adaptive_threshold L C img of Inr r \<Rightarrow> Some r | Inl e \<Rightarrow> None)
            else None) of
        Some r \<Rightarrow> Inr r
      | None \<Rightarrow> cv_adaptiveThreshold C img ADAPTIVE_THRESH_GAUSSIAN_C 31 10)"

definition smart_deskew ::
  "leptonica \<Rightarrow> opencv \<Rightarrow> HybridPreprocessor \<Rightarrow> Mat \<Rightarrow> exn + Mat" where
  "smart_deskew L C hp img =
     (case (if tesseract_available hp then
              (case tesseract_deskew L C img of Inr r \<Rightarrow> Some r | Inl e \<Rightarrow> None)
            else None) of
        Some r \<Rightarrow> Inr r
      | None \<Rightarrow>
          then_do (cv_findNonZero C img) (\<lambda>points.
            if points = [] then Inr (clone img)
            else then_do (cv_minAreaRect C points) (\<lambda>rbox.
              let angle0 = angle rbox;
                  angle1 = (if angle0 < - 45 then angle0 + 90 else angle0);
                  rot_mat = cv_getRotationMatrix2D C (center rbox) angle1 1
              in cv_warpAffine C img rot_mat (cols img, rows img))))"

definition smart_dewarp ::
  "leptonica \<Rightarrow> opencv \<Rightarrow> HybridPreprocessor \<Rightarrow> Mat \<Rightarrow> exn + Mat" where
  "smart_dewarp L C hp img =
     (case (if tesseract_available hp then
              (case tesseract_dewarp L C img of Inr r \<Rightarrow> Some r | Inl e \<Rightarrow> None)
            else None) of
        Some r \<Rightarrow> Inr r
      | None \<Rightarrow>
          then_do (if channels img = 3 then cvtColor_BGR2GRAY C img else Inr img) (\<lambda>gray.
          then_do (cv_adaptiveThreshold C gray ADAPTIVE_THRESH_MEAN_C 31 10) (\<lambda>bin.
          then_do (cv_findContours C bin) (\<lambda>contours.
            if contours = [] then Inr (clone img)
            else then_do (cv_approxPolyDP C (contours ! largest_contour C contours) 20 True) (\<lambda>quad.
              if length quad \<noteq> 4 then Inr (clone img)
              else warp_quad C img quad)))))"

definition smart_denoise ::
  "leptonica \<Rightarrow> opencv \<Rightarrow> HybridPreprocessor \<Rightarrow> Mat \<Rightarrow> exn + Mat" where
  "smart_denoise L C hp img =
     (case (if tesseract_available hp then
              (case tesseract_denoise L C img of Inr r \<Rightarrow> Some r | Inl e \<Rightarrow> None)
            else None) of
        Some r \<Rightarrow> Inr r
      | None \<Rightarrow> then_do (cv_medianBlur C img 3) (\<lambda>med. cv_bilateralFilter C med 9 75 75))"

text \<open>\<open>HybridPreprocessor::enhanced_preprocess_pipeline\<close>: four assignments to \<open>result\<close>.\<close>

definition enhanced_preprocess_pipeline ::
  "leptonica \<Rightarrow> opencv \<Rightarrow> HybridPreprocessor \<Rightarrow> Mat \<Rightarrow> exn + Mat" where
  "enhanced_preprocess_pipeline L C hp img =
     (case smart_denoise L C hp img of Inl e \<Rightarrow> Inl e
      | Inr result1 \<Rightarrow>
     (case smart_adaptive_threshold L C hp result1 of Inl e \<Rightarrow> Inl e
      | Inr result2 \<Rightarrow>
     (case smart_deskew L C hp result2 of Inl e \<Rightarrow> Inl e
      | Inr result3 \<Rightarrow> smart_dewarp L C hp result3)))"

text \<open>\<open>enhanced_preprocess_image\<close> (preprocessing.cpp); \<open>hp\<close> is the process-wide
  preprocessor that \<open>get_hybrid_preprocessor\<close> creates on first use, and the scale of
  \<open>resize_image\<close> is its default, 1.5.\<close>

definition enhanced_preprocess_image ::
  "leptonica \<Rightarrow> opencv \<Rightarrow> HybridPreprocessor \<Rightarrow> Mat \<Rightarrow> exn + Mat" where
  "enhanced_preprocess_image L C hp img =
     (case (if channels img = 3 then to_grayscale C img else Inr img) of Inl e \<Rightarrow> Inl e
      | Inr gray \<Rightarrow>
     (case resize_image C gray (3 / 2) of Inl e \<Rightarrow> Inl e
      | Inr resized \<Rightarrow> enhanced_preprocess_pipeline L C hp resized))"

section \<open>The Strategy Stage and the stage order, as the specification words them\<close>

text \<open>The four stage kinds; for each, the hybrid stage, its primary strategy with the
  algorithm inside it, and its fallback strategy (the baseline function whose code the
  hybrid stage repeats).\<close>

datatype stage = Denoise | Threshold | Deskew | Dewarp

fun hybrid_stage :: "leptonica \<Rightarrow> opencv \<Rightarrow> HybridPreprocessor \<Rightarrow> stage \<Rightarrow> Mat \<Rightarrow> exn + Mat" where
  "hybrid_stage L C hp Denoise = smart_denoise L C hp"
| "hybrid_stage L C hp Threshold = smart_adaptive_threshold L C hp"
| "hybrid_stage L C hp Deskew = smart_deskew L C hp"
| "hybrid_stage L C hp Dewarp = smart_dewarp L C hp"

fun primary :: "leptonica \<Rightarrow> opencv \<Rightarrow> stage \<Rightarrow> Mat \<Rightarrow> exn + Mat" where
  "primary L C Denoise = tesseract_denoise L C"
| "primary L C Threshold = tesseract_adaptive_threshold L C"
| "primary L C Deskew = tesseract_deskew L C"
| "primary L C Dewarp = tesseract_dewarp L C"

fun primary_algorithm :: "leptonica \<Rightarrow> stage \<Rightarrow> Pix \<Rightarrow> Mat" where
  "primary_algorithm L Denoise = apply_tesseract_denoising L"
| "primary_algorithm L Threshold = apply_tesseract_thresholding L"
| "primary_algorithm L Deskew = apply_tesseract_deskewing L"
| "primary_algorithm L Dewarp = apply_tesseract_dewarping L"

fun fallback :: "opencv \<Rightarrow> stage \<Rightarrow> Mat \<Rightarrow> exn + Mat" where
  "fallback C Denoise = invoice_denoise C"
| "fallback C Threshold = adaptive_gaussian_threshold C"
| "fallback C Deskew = deskew C"
| "fallback C Dewarp = dewarp C"

text \<open>Running a list of stages in order; an exception ends the run.\<close>

definition run_stages ::
  "leptonica \<Rightarrow> opencv \<Rightarrow> HybridPreprocessor \<Rightarrow> stage list \<Rightarrow> Mat \<Rightarrow> exn + Mat" where
  "run_stages L C hp stages img = foldl (\<lambda>acc st. then_do acc (hybrid_stage L C hp st)) (Inr img) stages"

definition grayscale_if_needed :: "opencv \<Rightarrow> Mat \<Rightarrow> exn + Mat" where
  "grayscale_if_needed C img = (if channels img = 3 then to_grayscale C img else Inr img)"

section \<open>Field extraction (postprocessing.cpp)\<close>

text \<open>
  The three patterns of \<open>extract_invoice_fields\<close> are \<open>std::regex\<close> objects of the default
  (ECMAScript) grammar, searched with \<open>std::regex_search\<close>. The fragment they use is:
  literal characters, \<open>\d\<close>, \<open>\s\<close>, bracket expressions, greedy quantifiers on a single
  character class (\<open>*\<close>, \<open>+\<close>, \<open>{n}\<close>), concatenation, alternation and capture groups.
\<close>

datatype cls = Chr char | Digit | Space

datatype atom = One cls | Bracket bool "cls list"

datatype regex =
    Eps
  | Atom atom
  | Rep atom nat "nat option"
  | Cat regex regex
  | Alt regex regex
  | Group nat regex

text \<open>\<open>\d\<close>, \<open>\s\<close> (the C locale's \<open>isspace\<close>) and the case folding of the \<open>icase\<close> flag.\<close>

definition is_digit :: "char \<Rightarrow> bool" where
  "is_digit c \<longleftrightarrow> c \<in> set ''0123456789''"

definition is_space :: "char \<Rightarrow> bool" where
  "is_space c \<longleftrightarrow> c \<in> set [CHR '' '', CHR 0x09, CHR 0x0A, CHR 0x0B, CHR 0x0C, CHR 0x0D]"

definition to_lower :: "char \<Rightarrow> char" where
  "to_lower c =
     (case map_of (zip ''ABCDEFGHIJKLMNOPQRSTUVWXYZ'' ''abcdefghijklmnopqrstuvwxyz'') c of
        Some l \<Rightarrow> l | None \<Rightarrow> c)"

fun cls_matches :: "bool \<Rightarrow> cls \<Rightarrow> char \<Rightarrow> bool" where
  "cls_matches icase (Chr a) c = (if icase then to_lower a = to_lower c else a = c)"
| "cls_matches icase Digit c = is_digit c"
| "cls_matches icase Space c = is_space c"

fun atom_matches :: "bool \<Rightarrow> atom \<Rightarrow> char \<Rightarrow> bool" where
  "atom_matches icase (One k) c = cls_matches icase k c"
| "atom_matches icase (Bracket negated ks) c = (list_ex (\<lambda>k. cls_matches icase k c) ks \<noteq> negated)"

text \<open>
  A backtracking matcher explores the alternatives of a pattern in a fixed priority
  order and reports the first that succeeds. \<open>run icase r s caps\<close> lists, in that order,
  every way \<open>r\<close> can match a prefix of \<open>s\<close>: the rest of the input and the capture groups
  set so far. A greedy quantifier tries the longest repetition first; an alternation its
  left branch first.
\<close>

type_synonym captures = "nat \<Rightarrow> string option"

fun run :: "bool \<Rightarrow> regex \<Rightarrow> string \<Rightarrow> captures \<Rightarrow> (string \<times> captures) list" where
  "run icase Eps s caps = [(s, caps)]"
| "run icase (Atom a) s caps =
     (case s of [] \<Rightarrow> [] | c # cs \<Rightarrow> if atom_matches icase a c then [(cs, caps)] else [])"
| "run icase (Rep a lo hi) s caps =
     (let window = (case hi of None \<Rightarrow> s | Some h \<Rightarrow> take h s);
          n = length (takeWhile (atom_matches icase a) window)
      in map (\<lambda>k. (drop k s, caps)) (rev [lo..<Suc n]))"
| "run icase (Cat r1 r2) s caps =
     concat (map (\<lambda>(s', caps'). run icase r2 s' caps') (run icase r1 s caps))"
| "run icase (Alt r1 r2) s caps = run icase r1 s caps @ run icase r2 s caps"
| "run icase (Group i r) s caps =
     map (\<lambda>(s', caps'). (s', caps'(i \<mapsto> take (length s - length s') s))) (run icase r s caps)"

text \<open>\<open>std::regex_search\<close>: the first match at the leftmost position that has one;
  \<open>str m i\<close> is \<open>m.str(i)\<close>, empty for a group that took no part.\<close>

fun regex_search :: "bool \<Rightarrow> regex \<Rightarrow> string \<Rightarrow> captures option" where
  "regex_search icase r [] =
     (case run icase r [] (\<lambda>i. None) of [] \<Rightarrow> None | m # ms \<Rightarrow> Some (snd m))"
| "regex_search icase r (c # cs) =
     (case run icase r (c # cs) (\<lambda>i. None) of [] \<Rightarrow> regex_search icase r cs | m # ms \<Rightarrow> Some (snd m))"

definition str :: "captures \<Rightarrow> nat \<Rightarrow> string" where
  "str m i = (case m i of None \<Rightarrow> [] | Some v \<Rightarrow> v)"

text \<open>The patterns \<open>(INV\s*\d+)\<close> (icase),
  \<open>(\d{2}[/-]\d{2}[/-]\d{4}|\d{4}[/-]\d{2}[/-]\d{2})\<close> and
  \<open>Total[^\d]*(\d+[.,]\d{2})\<close> (icase).\<close>

definition lit_seq :: "string \<Rightarrow> regex" where
  "lit_seq cs = foldr (\<lambda>c r. Cat (Atom (One (Chr c))) r) cs Eps"

definition invnum_re :: regex where
  "invnum_re = Group 1 (Cat (lit_seq ''INV'') (Cat (Rep (One Space) 0 None) (Rep (One Digit) 1 None)))"

definition date_sep :: regex where
  "date_sep = Atom (Bracket False [Chr CHR ''/'', Chr CHR ''-''])"

definition date_re :: regex where
  "date_re = Group 1 (Alt
      (Cat (Rep (One Digit) 2 (Some 2)) (Cat date_sep (Cat (Rep (One Digit) 2 (Some 2))
        (Cat date_sep (Rep (One Digit) 4 (Some 4))))))
      (Cat (Rep (One Digit) 4 (Some 4)) (Cat date_sep (Cat (Rep (One Digit) 2 (Some 2))
        (Cat date_sep (Rep (One Digit) 2 (Some 2)))))))"

definition total_re :: regex where
  "total_re = Cat (lit_seq ''Total'') (Cat (Rep (Bracket True [Digit]) 0 None)
      (Group 1 (Cat (Rep (One Digit) 1 None)
         (Cat (Atom (Bracket False [Chr CHR ''.'', Chr CHR '','']))
              (Rep (One Digit) 2 (Some 2))))))"

text \<open>\<open>extract_invoice_fields\<close>: the \<open>std::map\<close> is a map from field name to value.\<close>

definition extract_invoice_fields :: "string \<Rightarrow> (string \<rightharpoonup> string)" where
  "extract_invoice_fields ocr_text =
     (let fields = Map.empty;
          fields = (case regex_search True invnum_re ocr_text of
                      Some m \<Rightarrow> fields(''invoice_number'' \<mapsto> str m 1) | None \<Rightarrow> fields);
          fields = (case regex_search False date_re ocr_text of
                      Some m \<Rightarrow> fields(''date'' \<mapsto> str m 1) | None \<Rightarrow> fields);
          fields = (case regex_search True total_re ocr_text of
                      Some m \<Rightarrow> fields(''total'' \<mapsto> str m 1) | None \<Rightarrow> fields)
      in fields)"

section \<open>Sample inputs\<close>

text \<open>A fixed Otsu level, a 10 x 8 page with one ink band on rows 1 to 8, the same page
  with the band running into the bottom edge, a page with three bands, a page whose band
  is a single column of ink, a blank page, the empty image \<open>cv::Mat()\<close>, and a contour
  finder that reports one rectangle outline.\<close>

definition otsu_mid :: "Mat \<Rightarrow> 8 word" where
  "otsu_mid m = 127"

definition page_one_line :: Mat where
  "page_one_line = \<lparr>rows = 10, cols = 8, channels = 1,
      at_uchar = \<lambda>y x c. if 1 \<le> y \<and> y \<le> 8 \<and> 1 \<le> x \<and> x \<le> 6 then 0 else 255\<rparr>"

definition page_open_band :: Mat where
  "page_open_band = \<lparr>rows = 10, cols = 8, channels = 1,
      at_uchar = \<lambda>y x c. if 1 \<le> y then 0 else 255\<rparr>"

definition page_three_lines :: Mat where
  "page_three_lines = \<lparr>rows = 30, cols = 8, channels = 1,
      at_uchar = \<lambda>y x c. if y mod 10 \<noteq> 0 \<and> y mod 10 \<noteq> 9 \<and> 1 \<le> x \<and> x \<le> 6 then 0 else 255\<rparr>"

definition page_thin_line :: Mat where
  "page_thin_line = \<lparr>rows = 10, cols = 8, channels = 1,
      at_uchar = \<lambda>y x c. if 1 \<le> y \<and> y \<le> 8 \<and> x = 3 then 0 else 255\<rparr>"

definition blank_page :: Mat where
  "blank_page = \<lparr>rows = 10, cols = 8, channels = 1, at_uchar = \<lambda>y x c. 255\<rparr>"

definition no_image :: Mat where
  "no_image = \<lparr>rows = 0, cols = 0, channels = 1, at_uchar = \<lambda>y x c. 0\<rparr>"

definition outline_contours :: "Mat \<Rightarrow> (int \<times> int) list list" where
  "outline_contours m = [[(1, 1), (6, 1), (6, 8), (1, 8)]]"

text \<open>An OpenCV that raises where the library's argument checks do and otherwise returns
  its input, a Leptonica whose every call fails, a colour page, the two states of the
  hybrid preprocessor, and the sample text of \<open>test_invoice_field_extraction\<close>.\<close>

definition opencv_strict :: opencv where
  "opencv_strict =
     \<lparr>cv_cvtColor_BGR2GRAY = \<lambda>m. if channels m = 3 then Inr (m\<lparr>channels := 1\<rparr>)
                                  else Inl (Exception ''cvtColor: 3 channels expected''),
      cv_resize = \<lambda>m fx fy. if mat_empty m then Inl (Exception ''resize: empty image'') else Inr m,
      cv_adaptiveThreshold = \<lambda>m method blockSize c.
          if mat_empty m \<or> channels m \<noteq> 1
          then Inl (Exception ''adaptiveThreshold: 8-bit single-channel image expected'')
          else Inr m,
      cv_findNonZero = \<lambda>m. if channels m \<noteq> 1 then Inl (Exception ''findNonZero: single channel expected'')
                            else Inr [],
      cv_minAreaRect = \<lambda>ps. Inr \<lparr>center = (0, 0), angle = 0\<rparr>,
      cv_getRotationMatrix2D = \<lambda>c a s. [1, 0, 0, 0, 1, 0],
      cv_warpAffine = \<lambda>m M sz. Inr m,
      cv_findContours = \<lambda>m. Inr [[(1, 1), (6, 1), (6, 8)]],
      cv_contourArea = \<lambda>c. 0,
      cv_approxPolyDP = \<lambda>c eps closed. Inr c,
      warp_quad = \<lambda>m q. Inr m,
      cv_medianBlur = \<lambda>m k. Inr m,
      cv_bilateralFilter = \<lambda>m d sc ss. Inr m\<rparr>"

definition leptonica_null :: leptonica where
  "leptonica_null =
     \<lparr>pixCreate = \<lambda>w h d. None,
      pixConvertTo8 = \<lambda>p. None,
      pixOtsuAdaptiveThreshold = \<lambda>p. None,
      pixAdaptiveThreshold = \<lambda>p. None,
      pixAnd = \<lambda>p q. None,
      pixFindSkewAndDeskew = \<lambda>p. None,
      pixFindPageForeground = \<lambda>p. None,
      pixClipRectangle = \<lambda>p b. None,
      pixOpenBrick = \<lambda>p w h. None,
      pixCloseBrick = \<lambda>p w h. None\<rparr>"

definition color_page :: Mat where
  "color_page = \<lparr>rows = 10, cols = 8, channels = 3, at_uchar = \<lambda>y x c. 255\<rparr>"

definition hybrid_with_tesseract :: HybridPreprocessor where
  "hybrid_with_tesseract = HybridPreprocessor_init False"

definition hybrid_without_tesseract :: HybridPreprocessor where
  "hybrid_without_tesseract = HybridPreprocessor_init True"

text \<open>A page whose band has a gap at column 3, and a page of 2049 rows of 1048576 pixels
  whose first 2048 rows carry ink on their left half and in their last column.\<close>

definition page_gap_line :: Mat where
  "page_gap_line = \<lparr>rows = 10, cols = 8, channels = 1,
      at_uchar = \<lambda>y x c. if 1 \<le> y \<and> y \<le> 8 \<and> 1 \<le> x \<and> x \<le> 6 \<and> x \<noteq> 3 then 0 else 255\<rparr>"

definition giant_page :: Mat where
  "giant_page = \<lparr>rows = 2049, cols = 1048576, channels = 1,
      at_uchar = \<lambda>y x c. if y < 2048 \<and> (x < 524288 \<or> x = 1048575) then 0 else 255\<rparr>"

text \<open>An 8-bit raster as an image of the batch interface, and a page of 32-bit
  floating-point elements.\<close>

definition gray8 :: "Mat \<Rightarrow> cvMat" where
  "gray8 m = \<lparr>elem_depth = CV_8U, raster = m\<rparr>"

definition float_page :: cvMat where
  "float_page = \<lparr>elem_depth = CV_32F, raster = blank_page\<rparr>"

text \<open>An OpenCV and a Leptonica that leave a trace of every call in the size of the
  image they return, so that which calls ran, and in which order, can be read off a
  result; the OpenCV raises where the library's argument checks do. Then the same OpenCV
  with a colour conversion that raises, and a four-channel page.\<close>

definition opencv_trace :: opencv where
  "opencv_trace =
     \<lparr>cv_cvtColor_BGR2GRAY = \<lambda>m. if channels m = 3 then Inr m
                                  else Inl (Exception ''cvtColor: 3 channels expected''),
      cv_resize = \<lambda>m fx fy.
          if mat_empty m then Inl (Exception ''resize: empty image'')
          else Inr (m\<lparr>rows := nat \<lfloor>real (rows m) * fy\<rfloor>, cols := nat \<lfloor>real (cols m) * fx\<rfloor>\<rparr>),
      cv_adaptiveThreshold = \<lambda>m method blockSize c.
          if mat_empty m \<or> channels m \<noteq> 1
          then Inl (Exception ''adaptiveThreshold: 8-bit single-channel image expected'')
          else Inr (m\<lparr>rows := rows m + blockSize\<rparr>),
      cv_findNonZero = \<lambda>m. if channels m \<noteq> 1 then Inl (Exception ''findNonZero: single channel expected'')
                            else Inr [(0, 0)],
      cv_minAreaRect = \<lambda>ps. Inr \<lparr>center = (0, 0), angle = - 60\<rparr>,
      cv_getRotationMatrix2D = \<lambda>c a s. [a],
      cv_warpAffine = \<lambda>m M sz. Inr (m\<lparr>rows := rows m + nat \<lfloor>hd M\<rfloor>\<rparr>),
      cv_findContours = \<lambda>m. Inr [[(0, 0), (1, 0), (1, 1), (0, 1)]],
      cv_contourArea = \<lambda>c. 1,
      cv_approxPolyDP = \<lambda>c eps closed. Inr c,
      warp_quad = \<lambda>m q. Inr (m\<lparr>rows := rows m - 1\<rparr>),
      cv_medianBlur = \<lambda>m k. Inr (m\<lparr>rows := rows m + k\<rparr>),
      cv_bilateralFilter = \<lambda>m d sc ss.
          if channels m = 1 \<or> channels m = 3 then Inr (m\<lparr>rows := 2 * rows m\<rparr>)
          else Inl (Exception ''bilateralFilter: 1 or 3 channels expected'')\<rparr>"

definition leptonica_trace :: leptonica where
  "leptonica_trace =
     \<lparr>pixCreate = \<lambda>w h d. Some \<lparr>pix_w = w, pix_h = h, pix_d = d, pix_data = \<lambda>x y. 0\<rparr>,
      pixConvertTo8 = \<lambda>p. Some (p\<lparr>pix_d := 8\<rparr>),
      pixOtsuAdaptiveThreshold = \<lambda>p. Some (p\<lparr>pix_h := pix_h p + 1\<rparr>),
      pixAdaptiveThreshold = \<lambda>p. Some (p\<lparr>pix_w := pix_w p + 1\<rparr>),
      pixAnd = \<lambda>p q. Some (p\<lparr>pix_h := pix_h p + pix_w q\<rparr>),
      pixFindSkewAndDeskew = \<lambda>p. Some (p\<lparr>pix_h := 3 * pix_h p\<rparr>),
      pixFindPageForeground = \<lambda>p. Some [(0, 0, int (pix_w p), int (pix_h p) - 1)],
      pixClipRectangle = \<lambda>p b. (case b of (x, y, w, h) \<Rightarrow> Some (p\<lparr>pix_w := nat w, pix_h := nat h\<rparr>)),
      pixOpenBrick = \<lambda>p w h. Some (p\<lparr>pix_h := pix_h p + w\<rparr>),
      pixCloseBrick = \<lambda>p w h. Some (p\<lparr>pix_h := 2 * pix_h p\<rparr>)\<rparr>"

definition opencv_gray_raises :: opencv where
  "opencv_gray_raises = opencv_trace\<lparr>cv_cvtColor_BGR2GRAY := \<lambda>m. Inl (Exception ''cvtColor failed'')\<rparr>"

definition bgra_page :: Mat where
  "bgra_page = \<lparr>rows = 10, cols = 8, channels = 4, at_uchar = \<lambda>y x c. 255\<rparr>"

definition sample_text :: string where
  "sample_text = ''\<newline>        Invoice Number: INV12345\<newline>        Date: 2023-05-12\<newline>        Total: $1,234.56\<newline>    ''"

section \<open>Proofs: line segmentation\<close>


lemma set_findNonZero_row:
  "set (findNonZero_row bin yy) = {x. x < cols bin \<and> at_uchar bin yy x 0 \<noteq> 0}"
  by (auto simp: findNonZero_row_def)

lemma sorted_findNonZero_row: "sorted (findNonZero_row bin yy)"
  unfolding findNonZero_row_def by (rule sorted_wrt_filter) simp

lemma hd_sorted_Min:
  fixes xs :: "nat list"
  assumes "sorted xs" "xs \<noteq> []"
  shows "hd xs = Min (set xs)"
proof -
  obtain x ys where xs: "xs = x # ys" using assms(2) by (cases xs) auto
  with assms(1) have "\<forall>y\<in>set ys. x \<le> y" by simp
  then have "Min (insert x (set ys)) = x" by (intro Min_insert2) auto
  then show ?thesis by (simp add: xs)
qed

lemma last_sorted_Max:
  fixes xs :: "nat list"
  assumes "sorted xs" "xs \<noteq> []"
  shows "last xs = Max (set xs)"
proof -
  have "\<forall>y\<in>set xs. y \<le> last xs"
    using assms by (induction xs) (auto simp: )
  moreover have "last xs \<in> set xs" using assms(2) by simp
  ultimately show ?thesis by (metis List.finite_set Max_eqI)
qed

lemma finite_row_columns: "finite (row_columns bin ys)"
  by (simp add: row_columns_def)

lemma row_columns_Cons:
  "row_columns bin (y # ys) = set (findNonZero_row bin y) \<union> row_columns bin ys"
  by (auto simp: row_columns_def set_findNonZero_row)

lemma extent_fold:
  "fold (extent_step bin) ys (lo, hi) =
     (Min (insert lo (int ` row_columns bin ys)), Max (insert hi (int ` row_columns bin ys)))"
proof (induction ys arbitrary: lo hi)
  case Nil
  show ?case by (simp add: row_columns_def)
next
  case (Cons y ys)
  let ?nz = "findNonZero_row bin y"
  let ?R = "int ` row_columns bin ys"
  have fin: "finite ?R" by (simp add: finite_row_columns)
  show ?case
  proof (cases "?nz = []")
    case True
    then have "row_columns bin (y # ys) = row_columns bin ys"
      by (simp add: row_columns_Cons)
    with True Cons.IH[of lo hi] show ?thesis
      by (simp add: extent_step_def)
  next
    case False
    let ?S = "int ` set ?nz"
    have h: "int (hd ?nz) = Min ?S"
      using False hd_sorted_Min[OF sorted_findNonZero_row False]
      by (simp add: mono_Min_commute[symmetric] mono_def)
    have l: "int (last ?nz) = Max ?S"
      using False last_sorted_Max[OF sorted_findNonZero_row False]
      by (simp add: mono_Max_commute[symmetric] mono_def)
    have S: "finite ?S" "?S \<noteq> {}" using False by auto
    have step: "extent_step bin y (lo, hi) = (min lo (Min ?S), max hi (Max ?S))"
      using False by (simp add: extent_step_def Let_def h l)
    have U: "int ` row_columns bin (y # ys) = ?S \<union> ?R"
      by (simp add: row_columns_Cons image_Un)
    have "Min (insert (min lo (Min ?S)) ?R) = Min (insert lo (?S \<union> ?R))"
    proof -
      have "Min (insert lo (?S \<union> ?R)) = Min (insert lo ?S \<union> ?R)" by simp
      also have "\<dots> = Min (insert (Min (insert lo ?S)) ?R)"
        using S fin by (cases "?R = {}") (simp_all add: Min_Un min.assoc Min_insert del: Un_insert_left)
      also have "Min (insert lo ?S) = min lo (Min ?S)" using S by (simp add: Min_insert)
      finally show ?thesis by simp
    qed
    moreover have "Max (insert (max hi (Max ?S)) ?R) = Max (insert hi (?S \<union> ?R))"
    proof -
      have "Max (insert hi (?S \<union> ?R)) = Max (insert hi ?S \<union> ?R)" by simp
      also have "\<dots> = Max (insert (Max (insert hi ?S)) ?R)"
        using S fin by (cases "?R = {}") (simp_all add: Max_Un max.assoc Max_insert del: Un_insert_left)
      also have "Max (insert hi ?S) = max hi (Max ?S)" using S by (simp add: Max_insert)
      finally show ?thesis by simp
    qed
    ultimately show ?thesis
      using Cons.IH[of "min lo (Min ?S)" "max hi (Max ?S)"] step U by simp
  qed
qed


lemma band_columns_row_columns: "band_columns bin a c = row_columns bin [a..<c]"
  by (auto simp: band_columns_def row_columns_def)

lemma ink_row_nonzero:
  assumes "ink_row bin y"
  shows "\<exists>x. x < cols bin \<and> at_uchar bin y x 0 \<noteq> 0"
proof -
  have "0 \<le> int (cols bin) div 20" by simp
  with assms have "filter (\<lambda>x. at_uchar bin y x 0 \<noteq> 0) [0..<cols bin] \<noteq> []"
    by (auto simp: ink_row_def countNonZero_row_def)
  then obtain x where "x \<in> set (filter (\<lambda>x. at_uchar bin y x 0 \<noteq> 0) [0..<cols bin])"
    by (meson last_in_set)
  then show ?thesis by auto
qed

lemma band_columns_facts:
  assumes "a < c" "\<forall>k. a \<le> k \<and> k < c \<longrightarrow> ink_row bin k"
  shows "finite (band_columns bin a c)" "band_columns bin a c \<noteq> {}"
    "\<forall>x\<in>band_columns bin a c. x < cols bin"
proof -
  show "finite (band_columns bin a c)" by (simp add: band_columns_def)
  from assms have "ink_row bin a" by simp
  from ink_row_nonzero[OF this] assms(1) show "band_columns bin a c \<noteq> {}"
    by (auto simp: band_columns_def)
  show "\<forall>x\<in>band_columns bin a c. x < cols bin" by (simp add: band_columns_def)
qed

lemma band_extent:
  assumes "a < c" "\<forall>k. a \<le> k \<and> k < c \<longrightarrow> ink_row bin k"
  shows "fold (extent_step bin) [a..<c] (int (cols bin), 0) =
           (int (Min (band_columns bin a c)), int (Max (band_columns bin a c)))"
proof -
  let ?S = "band_columns bin a c"
  note f = band_columns_facts[OF assms]
  have fin: "finite (int ` ?S)" "int ` ?S \<noteq> {}" using f by auto
  have mn: "Min (int ` ?S) = int (Min ?S)"
    using f by (simp add: mono_Min_commute[symmetric] mono_def)
  have mx: "Max (int ` ?S) = int (Max ?S)"
    using f by (simp add: mono_Max_commute[symmetric] mono_def)
  have "Min ?S \<in> ?S" using f by (simp add: Min_in)
  then have lt: "Min ?S < cols bin" using f(3) by blast
  have "Min (insert (int (cols bin)) (int ` ?S)) = int (Min ?S)"
    using fin lt by (simp add: Min_insert mn)
  moreover have "Max (insert 0 (int ` ?S)) = int (Max ?S)"
    using fin by (simp add: Max_insert mx)
  ultimately show ?thesis
    by (simp add: extent_fold band_columns_row_columns[symmetric])
qed

lemma closed_band_unique:
  assumes "y0 < n" "\<forall>k. y0 \<le> k \<and> k < n \<longrightarrow> ink_row bin k" "y0 = 0 \<or> \<not> ink_row bin (y0 - 1)"
    and "\<not> ink_row bin n" "n < rows bin"
  shows "closed_band bin a n \<longleftrightarrow> a = y0"
proof
  assume cb: "closed_band bin a n"
  show "a = y0"
  proof (rule ccontr)
    assume "a \<noteq> y0"
    then consider "a < y0" | "y0 < a" by linarith
    then show False
    proof cases
      case 1
      then have "a \<le> y0 - 1" "y0 - 1 < n" "y0 \<noteq> 0" using assms(1) by auto
      with cb have "ink_row bin (y0 - 1)" by (simp add: closed_band_def)
      with assms(3) \<open>y0 \<noteq> 0\<close> show False by simp
    next
      case 2
      then have "a \<noteq> 0" by simp
      with cb have "\<not> ink_row bin (a - 1)" by (simp add: closed_band_def)
      moreover from cb have "a < n" by (simp add: closed_band_def)
      with 2 have "y0 \<le> a - 1" "a - 1 < n" by auto
      with assms(2) have "ink_row bin (a - 1)" by simp
      ultimately show False by simp
    qed
  qed
next
  assume "a = y0"
  with assms show "closed_band bin a n" by (simp add: closed_band_def)
qed

lemma kept_split:
  "{band_box bin a c | a c. kept_band bin a c \<and> c < Suc n} =
   {band_box bin a c | a c. kept_band bin a c \<and> c < n} \<union> {band_box bin a n | a. kept_band bin a n}"
  by (auto simp: less_Suc_eq)

lemma box_end: "box_y (band_box bin a c) + box_h (band_box bin a c) = int c"
  by (simp add: band_box_def)

lemma line_step_ink:
  assumes "n < rows bin" "ink_row bin n"
  shows "line_step bin (map (countNonZero_row bin) [0..<rows bin]) 8 (int (cols bin) div 20) n
           (in_line, y0, boxes) = (True, if in_line then y0 else n, boxes)"
  using assms by (simp add: line_step_def ink_row_def)

lemma line_step_idle:
  assumes "n < rows bin" "\<not> ink_row bin n"
  shows "line_step bin (map (countNonZero_row bin) [0..<rows bin]) 8 (int (cols bin) div 20) n
           (False, y0, boxes) = (False, y0, boxes)"
  using assms by (simp add: line_step_def ink_row_def)

lemma line_step_close:
  assumes "n < rows bin" "\<not> ink_row bin n"
    and "fold (extent_step bin) [y0..<n] (int (cols bin), 0) = (x_min, x_max)"
  shows "line_step bin (map (countNonZero_row bin) [0..<rows bin]) 8 (int (cols bin) div 20) n
           (True, y0, boxes) =
         (False, y0,
          if int n - 1 - int y0 + 1 \<ge> 8 \<and> x_max > x_min
          then boxes @ [Box x_min (int y0) (x_max - x_min + 1) (int n - 1 - int y0 + 1)]
          else boxes)"
  using assms by (simp add: line_step_def ink_row_def Let_def)

lemma line_step_inv:
  assumes inv: "line_inv bin n s" and n: "n < rows bin"
  shows "line_inv bin (Suc n)
           (line_step bin (map (countNonZero_row bin) [0..<rows bin]) 8 (int (cols bin) div 20) n s)"
proof -
  obtain in_line y0 boxes where s: "s = (in_line, y0, boxes)" by (cases s) auto
  let ?K = "{band_box bin a c | a c. kept_band bin a c \<and> c < n}"
  from inv s have I1: "in_line \<Longrightarrow> y0 < n \<and> (\<forall>k. y0 \<le> k \<and> k < n \<longrightarrow> ink_row bin k) \<and>
                     (y0 = 0 \<or> \<not> ink_row bin (y0 - 1))"
    and I2: "\<not> in_line \<Longrightarrow> n = 0 \<or> \<not> ink_row bin (n - 1)"
    and I3: "set boxes = ?K"
    and I4: "sorted_wrt (\<lambda>b b'. box_y b + box_h b < box_y b') boxes"
    by (auto simp: line_inv_def)
  show ?thesis
  proof (cases "ink_row bin n")
    case ink: True
    have none: "{band_box bin a n | a. kept_band bin a n} = {}"
      using ink by (auto simp: kept_band_def closed_band_def)
    show ?thesis
    proof (cases in_line)
      case True
      from I1[OF True] ink have A: "\<forall>k. y0 \<le> k \<and> k < Suc n \<longrightarrow> ink_row bin k"
        by (auto simp: less_Suc_eq)
      from True I1 I3 I4 none A show ?thesis
        unfolding s line_step_ink[OF n ink]
        by (simp add: line_inv_def kept_split)
    next
      case False
      from ink have A: "\<forall>k. n \<le> k \<and> k < Suc n \<longrightarrow> ink_row bin k"
        by (auto simp: less_Suc_eq)
      from False I2 I3 I4 none A show ?thesis
        unfolding s line_step_ink[OF n ink]
        by (simp add: line_inv_def kept_split)
    qed
  next
    case notink: False
    show ?thesis
    proof (cases in_line)
      case False
      have "\<not> closed_band bin a n" for a
      proof
        assume cb: "closed_band bin a n"
        then have "a < n" by (simp add: closed_band_def)
        then have "a \<le> n - 1" "n - 1 < n" "n \<noteq> 0" by auto
        with cb have "ink_row bin (n - 1)" by (simp add: closed_band_def)
        with I2[OF False] \<open>n \<noteq> 0\<close> show False by simp
      qed
      then have none: "{band_box bin a n | a. kept_band bin a n} = {}"
        by (auto simp: kept_band_def)
      from False have s': "s = (False, y0, boxes)" by (simp add: s)
      show ?thesis
        unfolding s' line_step_idle[OF n notink] using notink I3 I4 none
        by (simp add: line_inv_def kept_split)
    next
      case True
      note J = I1[OF True]
      from True have s': "s = (True, y0, boxes)" by (simp add: s)
      have uniq: "closed_band bin a n \<longleftrightarrow> a = y0" for a
        using closed_band_unique[of y0 n bin a] J notink n by blast
      have ext: "fold (extent_step bin) [y0..<n] (int (cols bin), 0) =
           (int (Min (band_columns bin y0 n)), int (Max (band_columns bin y0 n)))"
        using band_extent[of y0 n bin] J by blast
      have new: "{band_box bin a n | a. kept_band bin a n} =
                 (if kept_band bin y0 n then {band_box bin y0 n} else {})"
        using uniq by (auto simp: kept_band_def)
      have kept: "kept_band bin y0 n \<longleftrightarrow>
                    int n - 1 - int y0 + 1 \<ge> 8 \<and>
                    int (Min (band_columns bin y0 n)) < int (Max (band_columns bin y0 n))"
        using uniq[of y0] by (auto simp: kept_band_def)
      have above: "\<forall>b\<in>set boxes. box_y b + box_h b < int y0"
      proof
        fix b assume "b \<in> set boxes"
        with I3 obtain a c where b: "b = band_box bin a c" and k: "kept_band bin a c" and c: "c < n"
          by auto
        from k have "\<not> ink_row bin c" by (simp add: kept_band_def closed_band_def)
        with J c have "c < y0" by (meson not_le_imp_less)
        then show "box_y b + box_h b < int y0" by (simp add: b box_end)
      qed
      have bb: "Box (int (Min (band_columns bin y0 n))) (int y0)
                 (int (Max (band_columns bin y0 n)) - int (Min (band_columns bin y0 n)) + 1)
                 (int n - 1 - int y0 + 1) = band_box bin y0 n"
        by (simp add: band_box_def)
      have st: "line_step bin (map (countNonZero_row bin) [0..<rows bin]) 8 (int (cols bin) div 20) n s
                = (False, y0, if kept_band bin y0 n then boxes @ [band_box bin y0 n] else boxes)"
        unfolding s' line_step_close[OF n notink ext] kept[symmetric] bb ..
      have srt: "sorted_wrt (\<lambda>b b'. box_y b + box_h b < box_y b') (boxes @ [band_box bin y0 n])"
        using I4 above by (simp add: sorted_wrt_append band_box_def)
      show ?thesis
        unfolding st using notink I3 I4 new srt
        by (simp add: line_inv_def kept_split)
    qed
  qed
qed

lemma line_inv_init: "line_inv bin 0 (False, 0, [])"
  by (simp add: line_inv_def)

lemma line_loop_inv:
  "n \<le> rows bin \<Longrightarrow>
   line_inv bin n (fold (line_step bin (map (countNonZero_row bin) [0..<rows bin]) 8 (int (cols bin) div 20))
                     [0..<n] (False, 0, []))"
proof (induction n)
  case 0
  show ?case by (simp add: line_inv_init)
next
  case (Suc n)
  then have "n < rows bin" and "n \<le> rows bin" by simp_all
  with Suc.IH line_step_inv show ?case by simp
qed



lemma rows_threshold [simp]: "rows (threshold_otsu_inv otsu img) = rows img"
  and cols_threshold [simp]: "cols (threshold_otsu_inv otsu img) = cols img"
  by (simp_all add: threshold_otsu_inv_def threshold_binary_inv_def)

lemma segment_lines_ok:
  assumes "\<not> mat_empty img" "channels img = 1"
  shows "\<exists>in_line y0 boxes.
           segment_lines otsu img err_msg = (boxes, []) \<and>
           line_inv (threshold_otsu_inv otsu img) (rows img) (in_line, y0, boxes)"
proof -
  let ?bin = "threshold_otsu_inv otsu img"
  let ?s = "fold (line_step ?bin (map (countNonZero_row ?bin) [0..<rows ?bin]) 8 (int (cols ?bin) div 20))
              [0..<rows ?bin] (False, 0, [])"
  obtain in_line y0 boxes where s: "?s = (in_line, y0, boxes)" by (cases ?s) auto
  have "line_inv ?bin (rows ?bin) ?s" by (rule line_loop_inv) simp
  with s have "line_inv ?bin (rows img) (in_line, y0, boxes)" by simp
  moreover have "segment_lines otsu img err_msg = (boxes, [])"
    using assms s by (simp add: segment_lines_def Let_def)
  ultimately show ?thesis by blast
qed

lemma kept_band_rows: "kept_band bin a c \<Longrightarrow> c < rows bin"
  by (simp add: kept_band_def closed_band_def)

lemma segment_lines_set:
  assumes "\<not> mat_empty img" "channels img = 1"
  shows "set (fst (segment_lines otsu img err_msg)) =
           {band_box (threshold_otsu_inv otsu img) a c | a c. kept_band (threshold_otsu_inv otsu img) a c} \<and>
         sorted_wrt (\<lambda>b b'. box_y b + box_h b < box_y b') (fst (segment_lines otsu img err_msg))"
proof -
  let ?bin = "threshold_otsu_inv otsu img"
  from segment_lines_ok[OF assms, of otsu err_msg]
  obtain in_line y0 boxes where e: "segment_lines otsu img err_msg = (boxes, [])"
    and inv: "line_inv ?bin (rows img) (in_line, y0, boxes)" by blast
  have "kept_band ?bin a c \<and> c < rows img \<longleftrightarrow> kept_band ?bin a c" for a c
    using kept_band_rows[of ?bin a c] by auto
  with inv show ?thesis by (simp add: e line_inv_def)
qed

lemma band_box_region_ok:
  assumes "kept_band bin a c"
  shows "box_w (band_box bin a c) > 0" "box_h (band_box bin a c) > 0"
    "box_x (band_box bin a c) \<ge> 0" "box_y (band_box bin a c) \<ge> 0"
    "box_x (band_box bin a c) + box_w (band_box bin a c) \<le> int (cols bin)"
    "box_y (band_box bin a c) + box_h (band_box bin a c) \<le> int (rows bin)"
proof -
  from assms have cb: "a < c" "\<forall>k. a \<le> k \<and> k < c \<longrightarrow> ink_row bin k" "c < rows bin"
    and h: "int c - int a \<ge> 8"
    and lt: "Min (band_columns bin a c) < Max (band_columns bin a c)"
    by (simp_all add: kept_band_def closed_band_def)
  note f = band_columns_facts[OF cb(1,2)]
  have "Max (band_columns bin a c) \<in> band_columns bin a c" using f by (simp add: Max_in)
  with f(3) have mx: "Max (band_columns bin a c) < cols bin" by blast
  show "box_w (band_box bin a c) > 0" using lt by (simp add: band_box_def)
  show "box_h (band_box bin a c) > 0" using h by (simp add: band_box_def)
  show "box_x (band_box bin a c) \<ge> 0" by (simp add: band_box_def)
  show "box_y (band_box bin a c) \<ge> 0" by (simp add: band_box_def)
  show "box_x (band_box bin a c) + box_w (band_box bin a c) \<le> int (cols bin)"
    using mx by (simp add: band_box_def)
  show "box_y (band_box bin a c) + box_h (band_box bin a c) \<le> int (rows bin)"
    using cb(3) by (simp add: band_box_def)
qed

lemma segment_lines_region_ok:
  assumes "\<not> mat_empty img" "channels img = 1" "b \<in> set (fst (segment_lines otsu img err_msg))"
  shows "region_ok img b"
proof -
  let ?bin = "threshold_otsu_inv otsu img"
  from segment_lines_set[OF assms(1,2), of otsu err_msg] assms(3)
  obtain a c where b: "b = band_box ?bin a c" and k: "kept_band ?bin a c" by auto
  from band_box_region_ok[OF k] show ?thesis by (simp add: region_ok_def b)
qed

lemma fold_min_bounds:
  "l \<le> (a::int) \<Longrightarrow> \<forall>x\<in>set xs. l \<le> x \<Longrightarrow> l \<le> fold min xs a"
  by (induction xs arbitrary: a) auto

lemma fold_max_bounds:
  "(a::int) \<le> u \<Longrightarrow> \<forall>x\<in>set xs. x \<le> u \<Longrightarrow> fold max xs a \<le> u"
  by (induction xs arbitrary: a) auto

lemma boundingRect_within:
  assumes "\<forall>p\<in>set c. 0 \<le> fst p \<and> fst p < W \<and> 0 \<le> snd p \<and> snd p < H" and "0 \<le> W" "0 \<le> H"
  shows "box_x (boundingRect c) \<ge> 0 \<and> box_y (boundingRect c) \<ge> 0 \<and>
         box_x (boundingRect c) + box_w (boundingRect c) \<le> W \<and>
         box_y (boundingRect c) + box_h (boundingRect c) \<le> H"
proof (cases c)
  case Nil
  with assms(2,3) show ?thesis by (simp add: boundingRect_def)
next
  case (Cons p ps)
  with assms(1) have p: "0 \<le> fst p" "fst p < W" "0 \<le> snd p" "snd p < H"
    and ps: "\<forall>q\<in>set ps. 0 \<le> fst q \<and> fst q < W \<and> 0 \<le> snd q \<and> snd q < H" by auto
  have "0 \<le> fold min (map fst ps) (fst p)" using p ps by (intro fold_min_bounds) auto
  moreover have "0 \<le> fold min (map snd ps) (snd p)" using p ps by (intro fold_min_bounds) auto
  moreover have "fold max (map fst ps) (fst p) \<le> W - 1" using p ps by (intro fold_max_bounds) auto
  moreover have "fold max (map snd ps) (snd p) \<le> H - 1" using p ps by (intro fold_max_bounds) auto
  ultimately show ?thesis by (simp add: boundingRect_def Cons Let_def)
qed

lemma fold_word_step_set:
  "set (fold word_step cs acc) =
     set acc \<union> {boundingRect c | c. c \<in> set cs \<and> box_w (boundingRect c) > 5 \<and> box_h (boundingRect c) > 5}"
  by (induction cs arbitrary: acc) (auto simp: word_step_def Let_def)

lemma segment_words_region_ok:
  assumes "\<not> mat_empty img" "channels img = 1"
    and fc: "\<forall>c\<in>set (findContours (threshold_otsu_inv otsu img)). \<forall>p\<in>set c.
               0 \<le> fst p \<and> fst p < int (cols img) \<and> 0 \<le> snd p \<and> snd p < int (rows img)"
    and b: "b \<in> set (fst (segment_words otsu findContours img err_msg))"
  shows "region_ok img b"
proof -
  from assms(1,2) b obtain c where c: "c \<in> set (findContours (threshold_otsu_inv otsu img))"
    and bb: "b = boundingRect c" and w: "box_w b > 5" "box_h b > 5"
    by (auto simp: segment_words_def Let_def fold_word_step_set)
  from fc c have "\<forall>p\<in>set c. 0 \<le> fst p \<and> fst p < int (cols img) \<and> 0 \<le> snd p \<and> snd p < int (rows img)"
    by blast
  from boundingRect_within[OF this] w show ?thesis
    by (simp add: region_ok_def bb)
qed



text \<open>The sample page has exactly one line, and its outline is a word region.\<close>

lemma segment_lines_sample:
  "segment_lines otsu_mid page_one_line [] = ([Box 1 1 6 8], [])"
  by code_simp

lemma segment_words_sample:
  "segment_words otsu_mid outline_contours page_one_line [] = ([Box 1 1 6 8], [])"
  by code_simp

lemma segment_lines_open_sample:
  "segment_lines otsu_mid page_open_band [] = ([], [])"
  by code_simp

text \<open>Three separated bands give three regions from top to bottom; a band of 8 rows whose
  ink lies in one column gives none, since its \<open>x_max\<close> does not exceed its \<open>x_min\<close>.\<close>

lemma segment_lines_three_sample:
  "segment_lines otsu_mid page_three_lines [] = ([Box 1 1 6 8, Box 1 11 6 8, Box 1 21 6 8], [])"
  by code_simp

lemma segment_lines_thin_sample:
  "segment_lines otsu_mid page_thin_line [] = ([], [])"
  by code_simp

text \<open>
  Claim C2. On a non-empty single-channel image the regions of \<open>segment_lines\<close> are exactly
  the boxes of the kept bands of the binarised image, listed top to bottom without
  overlap. A band is entered at a row whose foreground count exceeds \<open>cols / 20\<close> and left
  at the first later row whose count is at or below it (\<open>closed_band\<close>); it is kept when it
  spans at least 8 rows and its greatest foreground column exceeds its least one
  (\<open>kept_band\<close>); its box runs from the least to the greatest foreground column of its rows
  (\<open>band_box\<close>), so every emitted width is positive.
\<close>

theorem segment_lines_bands:
  assumes "\<not> mat_empty img" "channels img = 1"
  shows "set (fst (segment_lines otsu img err_msg)) =
           {band_box (threshold_otsu_inv otsu img) a c | a c. kept_band (threshold_otsu_inv otsu img) a c} \<and>
         sorted_wrt (\<lambda>b b'. box_y b + box_h b < box_y b') (fst (segment_lines otsu img err_msg)) \<and>
         (\<forall>b\<in>set (fst (segment_lines otsu img err_msg)). box_w b > 0 \<and> box_h b \<ge> 8)"
proof -
  let ?bin = "threshold_otsu_inv otsu img"
  note st = segment_lines_set[OF assms, of otsu err_msg]
  have "box_w b > 0 \<and> box_h b \<ge> 8" if "b \<in> set (fst (segment_lines otsu img err_msg))" for b
  proof -
    from st that obtain a c where b: "b = band_box ?bin a c" and k: "kept_band ?bin a c" by auto
    from k band_box_region_ok(1)[OF k] show ?thesis
      by (simp add: b kept_band_def band_box_def)
  qed
  with st show ?thesis by blast
qed

theorem segment_lines_bands_witness:
  "\<not> mat_empty page_one_line \<and> channels page_one_line = 1 \<and>
   {band_box (threshold_otsu_inv otsu_mid page_one_line) a c | a c.
        kept_band (threshold_otsu_inv otsu_mid page_one_line) a c} = {Box 1 1 6 8} \<and>
   sorted_wrt (\<lambda>b b'. box_y b + box_h b < box_y b') (fst (segment_lines otsu_mid page_one_line []))"
proof -
  have n: "\<not> mat_empty page_one_line" "channels page_one_line = 1"
    by (simp_all add: page_one_line_def mat_empty_def)
  from segment_lines_bands[OF n, where otsu = otsu_mid and err_msg = "[]"] n show ?thesis
    by (simp add: segment_lines_sample)
qed

text \<open>
  Claim C9. On a non-empty single-channel image every region of \<open>segment_lines\<close> satisfies
  the Region invariant (positive width and height, non-negative origin, inside the
  image), and so does every region of \<open>segment_words\<close> provided the external contour
  finder reports points of the image only.
\<close>

theorem regions_satisfy_invariant:
  assumes "\<not> mat_empty img" "channels img = 1"
  shows "(\<forall>b\<in>set (fst (segment_lines otsu img err_msg)). region_ok img b) \<and>
         ((\<forall>c\<in>set (findContours (threshold_otsu_inv otsu img)). \<forall>p\<in>set c.
              0 \<le> fst p \<and> fst p < int (cols img) \<and> 0 \<le> snd p \<and> snd p < int (rows img)) \<longrightarrow>
          (\<forall>b\<in>set (fst (segment_words otsu findContours img err_msg)). region_ok img b))"
  using segment_lines_region_ok[OF assms] segment_words_region_ok[OF assms] by blast

theorem regions_satisfy_invariant_witness:
  "\<not> mat_empty page_one_line \<and> channels page_one_line = 1 \<and>
   fst (segment_lines otsu_mid page_one_line []) = [Box 1 1 6 8] \<and>
   fst (segment_words otsu_mid outline_contours page_one_line []) = [Box 1 1 6 8] \<and>
   region_ok page_one_line (Box 1 1 6 8)"
proof -
  have n: "\<not> mat_empty page_one_line" "channels page_one_line = 1"
    by (simp_all add: page_one_line_def mat_empty_def)
  have c: "\<forall>c\<in>set (outline_contours (threshold_otsu_inv otsu_mid page_one_line)). \<forall>p\<in>set c.
      0 \<le> fst p \<and> fst p < int (cols page_one_line) \<and> 0 \<le> snd p \<and> snd p < int (rows page_one_line)"
    by (simp add: outline_contours_def page_one_line_def)
  from regions_satisfy_invariant[OF n, where otsu = otsu_mid and findContours = outline_contours
      and err_msg = "[]"] n c
  show ?thesis by (simp add: segment_lines_sample segment_words_sample)
qed

lemma segment_lines_error:
  "mat_empty img \<or> channels img \<noteq> 1 \<Longrightarrow>
   segment_lines otsu img err_msg = ([], ''Input image must be non-empty and grayscale'')"
  by (simp add: segment_lines_def)

lemma segment_lines_snd:
  "snd (segment_lines otsu img err_msg) \<noteq> [] \<longleftrightarrow> mat_empty img \<or> channels img \<noteq> 1"
proof (cases "mat_empty img \<or> channels img \<noteq> 1")
  case True
  then show ?thesis by (simp add: segment_lines_error)
next
  case False
  with segment_lines_ok[of img otsu err_msg] show ?thesis by auto
qed

lemma segment_words_snd:
  "snd (segment_words otsu findContours img err_msg) \<noteq> [] \<longleftrightarrow> mat_empty img \<or> channels img \<noteq> 1"
  by (simp add: segment_words_def Let_def)

lemma blank_row_count:
  assumes "\<forall>y<rows img. \<forall>x<cols img. at_uchar img y x 0 = v" "y < rows img"
  shows "countNonZero_row (threshold_otsu_inv otsu img) y = (if v > otsu img then 0 else int (cols img))"
proof -
  have "filter (\<lambda>x. at_uchar (threshold_otsu_inv otsu img) y x 0 \<noteq> 0) [0..<cols img] =
        (if v > otsu img then [] else [0..<cols img])"
    using assms by (auto simp: threshold_otsu_inv_def threshold_binary_inv_def filter_empty_conv filter_id_conv)
  then show ?thesis by (simp add: countNonZero_row_def)
qed

lemma blank_no_band:
  assumes nonempty: "\<not> mat_empty img"
    and blank: "\<forall>y<rows img. \<forall>x<cols img. at_uchar img y x 0 = v"
  shows "\<not> closed_band (threshold_otsu_inv otsu img) a c"
proof
  let ?bin = "threshold_otsu_inv otsu img"
  assume cb: "closed_band ?bin a c"
  then have ac: "a < c" "c < rows img" and ia: "ink_row ?bin a" and nc: "\<not> ink_row ?bin c"
    by (simp_all add: closed_band_def)
  from nonempty have pos: "0 < cols img" by (simp add: mat_empty_def)
  show False
  proof (cases "v > otsu img")
    case True
    with ia ac blank_row_count[OF blank, of a otsu] show False
      by (simp add: ink_row_def)
  next
    case False
    have "int (cols img) div 20 < int (cols img)" using pos by simp
    with False nc ac blank_row_count[OF blank, of c otsu] show False
      by (simp add: ink_row_def)
  qed
qed

lemma segment_lines_blank:
  assumes "\<not> mat_empty img" "channels img = 1"
    and "\<forall>y<rows img. \<forall>x<cols img. at_uchar img y x 0 = v"
  shows "segment_lines otsu img err_msg = ([], [])"
proof -
  from segment_lines_ok[OF assms(1,2), of otsu err_msg]
  obtain boxes where e: "segment_lines otsu img err_msg = (boxes, [])" by blast
  from segment_lines_set[OF assms(1,2), of otsu err_msg] blank_no_band[OF assms(1,3)]
  have "set boxes = {}" by (simp add: e kept_band_def)
  with e show ?thesis by simp
qed

text \<open>
  Claim C8. \<open>segment_lines\<close> and \<open>segment_words\<close> leave a non-empty error message exactly
  when the image is empty or not single-channel, and then return no region; on a blank
  single-channel page (every pixel the same grey value \<open>v\<close>) \<open>segment_lines\<close> returns no
  region and the error message cleared, whatever level Otsu's method picks.
\<close>

theorem segmentation_usage_error:
  "(snd (segment_lines otsu img err_msg) \<noteq> [] \<longleftrightarrow> mat_empty img \<or> channels img \<noteq> 1) \<and>
   (snd (segment_words otsu findContours img err_msg) \<noteq> [] \<longleftrightarrow> mat_empty img \<or> channels img \<noteq> 1) \<and>
   (mat_empty img \<or> channels img \<noteq> 1 \<longrightarrow>
      fst (segment_lines otsu img err_msg) = [] \<and> fst (segment_words otsu findContours img err_msg) = []) \<and>
   (\<not> mat_empty img \<and> channels img = 1 \<and> (\<forall>y<rows img. \<forall>x<cols img. at_uchar img y x 0 = v) \<longrightarrow>
      segment_lines otsu img err_msg = ([], []))"
proof -
  have "mat_empty img \<or> channels img \<noteq> 1 \<Longrightarrow> fst (segment_words otsu findContours img err_msg) = []"
    by (simp add: segment_words_def)
  then show ?thesis
    using segment_lines_snd[of otsu img err_msg] segment_words_snd[of otsu findContours img err_msg]
      segment_lines_error[of img otsu err_msg] segment_lines_blank[of img v otsu err_msg]
    by auto
qed

theorem segmentation_usage_error_witness:
  "\<not> mat_empty blank_page \<and> channels blank_page = 1 \<and>
   segment_lines otsu_mid blank_page [] = ([], []) \<and>
   mat_empty no_image \<and>
   fst (segment_lines otsu_mid no_image []) = [] \<and>
   fst (segment_words otsu_mid outline_contours no_image []) = [] \<and>
   snd (segment_lines otsu_mid no_image []) \<noteq> [] \<and>
   snd (segment_words otsu_mid outline_contours no_image []) \<noteq> []"
  using segmentation_usage_error[where otsu = otsu_mid and img = blank_page and err_msg = "[]"
      and findContours = outline_contours and v = 255]
    segmentation_usage_error[where otsu = otsu_mid and img = no_image and err_msg = "[]"
      and findContours = outline_contours and v = 0]
  by (simp add: blank_page_def no_image_def mat_empty_def)

text \<open>
  Claim C10. When every row from \<open>y0\<close> to the bottom edge is an ink row, no region of
  \<open>segment_lines\<close> reaches row \<open>y0\<close>: each one ends strictly above it, however many rows the
  open band spans, and when the band starts at the top row nothing is emitted at all.
\<close>

theorem open_band_discarded:
  assumes "\<not> mat_empty img" "channels img = 1"
    and "\<forall>k. y0 \<le> k \<and> k < rows img \<longrightarrow> ink_row (threshold_otsu_inv otsu img) k"
  shows "(\<forall>b\<in>set (fst (segment_lines otsu img err_msg)). box_y b + box_h b < int y0) \<and>
         (y0 = 0 \<longrightarrow> fst (segment_lines otsu img err_msg) = [])"
proof -
  let ?bin = "threshold_otsu_inv otsu img"
  have above: "box_y b + box_h b < int y0" if "b \<in> set (fst (segment_lines otsu img err_msg))" for b
  proof -
    from segment_lines_set[OF assms(1,2), of otsu err_msg] that
    obtain a c where b: "b = band_box ?bin a c" and k: "kept_band ?bin a c" by auto
    from k have "c < rows img" "\<not> ink_row ?bin c" by (simp_all add: kept_band_def closed_band_def)
    with assms(3) have "c < y0" by (meson not_le_imp_less)
    then show ?thesis by (simp add: b box_end)
  qed
  moreover have "fst (segment_lines otsu img err_msg) = []" if "y0 = 0"
  proof (rule ccontr)
    assume "fst (segment_lines otsu img err_msg) \<noteq> []"
    then obtain b where b: "b \<in> set (fst (segment_lines otsu img err_msg))"
      by (meson last_in_set)
    from above[OF b] that have "box_y b + box_h b < 0" by simp
    moreover from segment_lines_region_ok[OF assms(1,2) b] have "0 \<le> box_y b" "0 < box_h b"
      by (simp_all add: region_ok_def)
    ultimately show False by simp
  qed
  ultimately show ?thesis by blast
qed

theorem open_band_discarded_witness:
  "\<not> mat_empty page_open_band \<and> channels page_open_band = 1 \<and>
   ink_row (threshold_otsu_inv otsu_mid page_open_band) 1 \<and>
   ink_row (threshold_otsu_inv otsu_mid page_open_band) 9 \<and>
   int (rows page_open_band) - 1 \<ge> 8 \<and>
   list_all (\<lambda>b. box_y b + box_h b < 1) (fst (segment_lines otsu_mid page_open_band []))"
proof -
  have h: "\<forall>k. 1 \<le> k \<and> k < rows page_open_band \<longrightarrow>
             ink_row (threshold_otsu_inv otsu_mid page_open_band) k"
    by (simp add: ink_row_def countNonZero_row_def threshold_otsu_inv_def threshold_binary_inv_def
        page_open_band_def otsu_mid_def)
  have n: "\<not> mat_empty page_open_band" "channels page_open_band = 1"
    by (simp_all add: page_open_band_def mat_empty_def)
  have r: "rows page_open_band = 10" by (simp add: page_open_band_def)
  from h r have i: "ink_row (threshold_otsu_inv otsu_mid page_open_band) 1"
    "ink_row (threshold_otsu_inv otsu_mid page_open_band) 9" by simp_all
  from open_band_discarded[OF n h, where err_msg = "[]"] i n r show ?thesis
    by (simp add: list_all_iff)
qed

section \<open>Proofs: scored segmentation\<close>

lemma countNonZero_row_bounds: "0 \<le> countNonZero_row m y" "countNonZero_row m y \<le> int (cols m)"
proof -
  show "0 \<le> countNonZero_row m y" by (simp add: countNonZero_row_def)
  have "length (filter (\<lambda>x. at_uchar m y x 0 \<noteq> 0) [0..<cols m]) \<le> length [0..<cols m]"
    by (rule length_filter_le)
  then show "countNonZero_row m y \<le> int (cols m)" by (simp add: countNonZero_row_def)
qed

lemma sum_rows_bounds:
  assumes "\<And>y. 0 \<le> f y" "\<And>y. f y \<le> (c::int)"
  shows "0 \<le> sum_list (map f [0..<n]) \<and> sum_list (map f [0..<n]) \<le> int n * c"
proof (induction n)
  case 0
  show ?case by simp
next
  case (Suc n)
  from assms(1)[of n] assms(2)[of n] Suc show ?case
    by (simp add: algebra_simps)
qed

lemma countNonZero_bounds:
  "0 \<le> countNonZero m" "countNonZero m \<le> int (rows m) * int (cols m)"
  using sum_rows_bounds[of "countNonZero_row m" "int (cols m)" "rows m"] countNonZero_row_bounds[of m]
  by (simp_all add: countNonZero_def)

lemma to_int32_id: "- (2 ^ 31) \<le> v \<Longrightarrow> v < 2 ^ 31 \<Longrightarrow> to_int32 v = v"
  by (simp add: to_int32_def sint_sbintrunc' signed_take_bit_int_eq_self)

lemma countNonZero_row_card:
  "countNonZero_row (threshold_otsu_inv otsu m) y =
     int (card {x. x < cols m \<and> at_uchar m y x 0 \<le> otsu m})"
proof -
  let ?P = "\<lambda>x. at_uchar m y x 0 \<le> otsu m"
  have s: "set (filter ?P [0..<cols m]) = {x. x < cols m \<and> ?P x}" by auto
  have "length (filter ?P [0..<cols m]) = card {x. x < cols m \<and> ?P x}"
    using distinct_card[of "filter ?P [0..<cols m]"] by (simp add: s)
  moreover have "(if otsu m < at_uchar m y x 0 then 0 else (255 :: 8 word)) \<noteq> 0 \<longleftrightarrow> ?P x" for x
    by (simp add: not_le not_less)
  ultimately show ?thesis
    by (simp add: countNonZero_row_def threshold_otsu_inv_def threshold_binary_inv_def)
qed

lemma countNonZero_card:
  "countNonZero (threshold_otsu_inv otsu m) = int (card (foreground otsu m))"
proof -
  let ?A = "\<lambda>y. {x. x < cols m \<and> at_uchar m y x 0 \<le> otsu m}"
  have f: "foreground otsu m = (SIGMA y:{0..<rows m}. ?A y)"
    by (auto simp: foreground_def)
  have r: "countNonZero_row (threshold_otsu_inv otsu m) = (\<lambda>y. int (card (?A y)))"
    by (rule ext) (rule countNonZero_row_card)
  have "countNonZero (threshold_otsu_inv otsu m) = sum_list (map (\<lambda>y. int (card (?A y))) [0..<rows m])"
    by (simp add: countNonZero_def r)
  also have "\<dots> = (\<Sum>y\<in>{0..<rows m}. int (card (?A y)))"
    by (simp add: interv_sum_list_conv_sum_set_nat)
  also have "\<dots> = int (\<Sum>y\<in>{0..<rows m}. card (?A y))" by simp
  also have "(\<Sum>y\<in>{0..<rows m}. card (?A y)) = card (SIGMA y:{0..<rows m}. ?A y)"
    by (rule card_SigmaI[symmetric]) simp_all
  finally show ?thesis by (simp add: f)
qed

lemma mat_roi_ok: "region_ok img b \<Longrightarrow> mat_roi img b = Inr (crop img b)"
  by (simp add: mat_roi_def region_ok_def)

lemma crop_area:
  assumes "region_ok img b"
  shows "int (rows (crop img b)) * int (cols (crop img b)) = box_w b * box_h b"
    "0 < box_w b * box_h b" "box_w b * box_h b \<le> int (rows img) * int (cols img)"
proof -
  from assms have pos: "0 < box_h b" "0 < box_w b" by (simp_all add: region_ok_def)
  then show "int (rows (crop img b)) * int (cols (crop img b)) = box_w b * box_h b"
    by (simp add: crop_def)
  from pos show "0 < box_w b * box_h b" by simp
  from assms have "0 \<le> box_x b" "0 \<le> box_y b" "box_x b + box_w b \<le> int (cols img)"
    "box_y b + box_h b \<le> int (rows img)" by (simp_all add: region_ok_def)
  then have "box_w b \<le> int (cols img)" "box_h b \<le> int (rows img)" by simp_all
  then have "box_h b * box_w b \<le> int (rows img) * int (cols img)"
    using pos by (intro mult_mono) simp_all
  then show "box_w b * box_h b \<le> int (rows img) * int (cols img)" by (simp add: mult.commute)
qed

lemma density_bounds:
  assumes "region_ok img b"
  shows "0 \<le> density otsu img b" "density otsu img b \<le> 1"
proof -
  let ?bin = "threshold_otsu_inv otsu (crop img b)"
  define A where "A = box_w b * box_h b"
  define n where "n = card (foreground otsu (crop img b))"
  have A: "0 < A" using crop_area[OF assms] by (simp add: A_def)
  have "int n \<le> A"
    using countNonZero_bounds(2)[of ?bin] crop_area(1)[OF assms]
    by (simp add: countNonZero_card n_def A_def)
  then have rn: "real n \<le> real_of_int A" by linarith
  have d: "density otsu img b = real n / real_of_int A"
    by (simp add: density_def A_def n_def)
  have rA: "0 < real_of_int A" using A by simp
  show "0 \<le> density otsu img b" unfolding d using rA by simp
  show "density otsu img b \<le> 1" unfolding d using rn rA by (simp add: divide_le_eq_1)
qed

lemma score_step_ok:
  assumes "region_ok img b" "int (rows img) * int (cols img) < 2 ^ 31"
  shows "score_step otsu img b (Inr scored) =
           Inr (scored @ [\<lparr>box = b, confidence = Finite (density otsu img b)\<rparr>])"
proof -
  let ?bin = "threshold_otsu_inv otsu (crop img b)"
  define A where "A = int (rows ?bin) * int (cols ?bin)"
  define n where "n = countNonZero ?bin"
  have rc: "rows ?bin = rows (crop img b)" "cols ?bin = cols (crop img b)"
    by simp_all
  have A: "A = box_w b * box_h b" "0 < A" "A < 2 ^ 31"
    using crop_area[OF assms(1)] assms(2) by (simp_all add: A_def rc)
  have n: "0 \<le> n" "n \<le> A" using countNonZero_bounds[of ?bin] by (simp_all add: A_def n_def)
  have tA: "to_int32 A = A" using A by (intro to_int32_id) simp_all
  have tn: "to_int32 n = n" using n A by (intro to_int32_id) simp_all
  have d: "density otsu img b = real_of_int n / real_of_int A"
    by (simp add: density_def n_def countNonZero_card A(1))
  have "score_step otsu img b (Inr scored) =
          Inr (scored @ [\<lparr>box = b, confidence =
             (if to_int32 A = 0 then NonFinite else Finite (real_of_int (to_int32 n) / real_of_int (to_int32 A)))\<rparr>])"
    by (simp add: score_step_def mat_roi_ok[OF assms(1)] Let_def A_def n_def)
  then show ?thesis using A(2) by (simp add: tA tn d)
qed

lemma fold_score_step:
  assumes "\<forall>b\<in>set lines. region_ok img b" "int (rows img) * int (cols img) < 2 ^ 31"
  shows "fold (score_step otsu img) lines (Inr scored) =
           Inr (scored @ map (\<lambda>b. \<lparr>box = b, confidence = Finite (density otsu img b)\<rparr>) lines)"
  using assms(1)
proof (induction lines arbitrary: scored)
  case Nil
  show ?case by simp
next
  case (Cons b lines)
  then show ?case by (simp add: score_step_ok[OF _ assms(2)])
qed

lemma segment_with_confidence_ok:
  assumes "\<not> mat_empty img" "channels img = 1" "int (rows img) * int (cols img) < 2 ^ 31"
  shows "segment_with_confidence otsu img err_msg =
           Inr (map (\<lambda>b. \<lparr>box = b, confidence = Finite (density otsu img b)\<rparr>)
                  (fst (segment_lines otsu img err_msg)), [])"
proof -
  from segment_lines_ok[OF assms(1,2), of otsu err_msg]
  obtain boxes where e: "segment_lines otsu img err_msg = (boxes, [])" by blast
  have "\<forall>b\<in>set boxes. region_ok img b"
    using segment_lines_region_ok[OF assms(1,2), of _ otsu err_msg] by (simp add: e)
  from fold_score_step[OF this assms(3), of otsu "[]"] show ?thesis
    by (simp add: segment_with_confidence_def e)
qed

text \<open>
  While the image has fewer than 2^31 pixels no \<open>int\<close> wraps: scored segmentation returns,
  without raising, one scored region per line region, in the same order, and each
  confidence is a finite number in [0, 1], the foreground density of its region.
\<close>

lemma scored_segmentation_below_int_max:
  assumes "\<not> mat_empty img" "channels img = 1" "int (rows img) * int (cols img) < 2 ^ 31"
  shows "\<exists>scored. segment_with_confidence otsu img err_msg = Inr (scored, []) \<and>
           map box scored = fst (segment_lines otsu img err_msg) \<and>
           (\<forall>s\<in>set scored. \<exists>q. confidence s = Finite q \<and> 0 \<le> q \<and> q \<le> 1 \<and>
              q = density otsu img (box s))"
proof -
  let ?lines = "fst (segment_lines otsu img err_msg)"
  let ?scored = "map (\<lambda>b. \<lparr>box = b, confidence = Finite (density otsu img b)\<rparr>) ?lines"
  have ok: "\<forall>b\<in>set ?lines. region_ok img b"
    using segment_lines_region_ok[OF assms(1,2), of _ otsu err_msg] by blast
  have e: "segment_with_confidence otsu img err_msg = Inr (?scored, [])"
    by (rule segment_with_confidence_ok[OF assms])
  have m: "map box ?scored = ?lines" by (simp add: comp_def)
  have c: "\<forall>s\<in>set ?scored. \<exists>q. confidence s = Finite q \<and> 0 \<le> q \<and> q \<le> 1 \<and>
              q = density otsu img (box s)"
    using ok density_bounds[of img _ otsu] by auto
  from e m c show ?thesis by blast
qed

text \<open>When line detection reports an error, that error is returned with no scored region.\<close>

lemma scored_segmentation_error:
  assumes "snd (segment_lines otsu img err_msg) \<noteq> []"
  shows "segment_with_confidence otsu img err_msg = Inr ([], snd (segment_lines otsu img err_msg))"
  using assms by (cases "segment_lines otsu img err_msg") (simp add: segment_with_confidence_def)

text \<open>The page whose band has a gap: 40 of the 48 pixels of its one region are foreground.\<close>

lemma scored_segmentation_gap_sample:
  "segment_with_confidence otsu_mid page_gap_line [] =
     Inr ([\<lparr>box = Box 1 1 6 8, confidence = Finite (5 / 6)\<rparr>], [])"
  by code_simp

text \<open>Lists of columns and of rows with a known content.\<close>

lemma filter_below: "K \<le> M \<Longrightarrow> filter (\<lambda>x. x < K) [0..<M] = [0..<K]"
proof -
  assume "K \<le> M"
  then have "[0..<M] = [0..<K] @ [K..<M]" by (metis le0 upt_add_eq_append le_add_diff_inverse)
  then show ?thesis by (simp add: filter_empty_conv)
qed

lemma filter_below_or_last:
  assumes "K < N"
  shows "filter (\<lambda>x. x < K \<or> x = N - 1) [0..<N] = [0..<K] @ [N - 1]"
proof -
  obtain M where N: "N = Suc M" using assms by (cases N) auto
  with assms have K: "K \<le> M" by simp
  have "filter (\<lambda>x. x < K \<or> x = M) [0..<M] = filter (\<lambda>x. x < K) [0..<M]"
    by (rule filter_cong) auto
  with filter_below[OF K] show ?thesis by (simp add: N)
qed

lemma sum_list_const:
  "\<forall>y\<in>set ys. f y = (c::int) \<Longrightarrow> sum_list (map f ys) = int (length ys) * c"
  by (induction ys) (simp_all add: algebra_simps)

lemma singleton_list:
  assumes "set xs = {b}" "sorted_wrt R xs" "\<not> R b b"
  shows "xs = [b]"
proof (cases xs)
  case Nil
  with assms(1) show ?thesis by simp
next
  case (Cons x ys)
  with assms(1) have x: "x = b" by auto
  have "ys = []"
  proof (cases ys)
    case Nil
    then show ?thesis .
  next
    case (Cons y zs)
    with \<open>xs = x # ys\<close> assms(1) have "y = b" by auto
    with assms(2) \<open>xs = x # ys\<close> Cons x have "R b b" by simp
    with assms(3) show ?thesis by simp
  qed
  with Cons x show ?thesis by simp
qed

text \<open>A page of \<open>R + 1\<close> rows of \<open>N\<close> pixels whose first \<open>R\<close> rows carry ink in their first \<open>K\<close>
  columns and in their last column has one line region, the box of \<open>N\<close> by \<open>R\<close> pixels at
  the origin, with \<open>R * (K + 1)\<close> foreground pixels, whatever level below 255 Otsu's method
  chooses.\<close>

lemma half_band_page:
  assumes r: "rows m = Suc R" and c: "cols m = N" and ch: "channels m = 1"
    and px: "\<And>y x. at_uchar m y x 0 = (if y < R \<and> (x < K \<or> x = N - 1) then 0 else 255)"
    and lv: "\<And>m. otsu m < 255"
    and sz: "8 \<le> R" "0 < K" "K < N - 1" "int N div 20 < int K + 1"
  shows "segment_with_confidence otsu m [] =
           Inr ([\<lparr>box = Box 0 0 (int N) (int R),
                  confidence =
                    (if to_int32 (int R * int N) = 0 then NonFinite
                     else Finite (real_of_int (to_int32 (int R * (int K + 1))) /
                                  real_of_int (to_int32 (int R * int N))))\<rparr>], [])"
    and "density otsu m (Box 0 0 (int N) (int R)) =
           real_of_int (int R * (int K + 1)) / real_of_int (int N * int R)"
proof -
  have lv2: "\<not> 255 \<le> otsu x" for x using lv[of x] by (simp add: not_le)
  let ?bin = "threshold_otsu_inv otsu m"
  let ?b = "Box 0 0 (int N) (int R)"
  have ne: "\<not> mat_empty m" using r c sz by (simp add: mat_empty_def)
  have KN: "K < N" using sz by simp
  have count: "int (length (filter (\<lambda>x. y < R \<and> (x < K \<or> x = N - 1)) [0..<N])) =
                 (if y < R then int K + 1 else 0)" for y
    using filter_below_or_last[OF KN] by (cases "y < R") simp_all
  have nz: "at_uchar ?bin y x 0 \<noteq> 0 \<longleftrightarrow> y < R \<and> (x < K \<or> x = N - 1)" for y x
    by (simp add: threshold_otsu_inv_def threshold_binary_inv_def px lv lv2)
  have row: "countNonZero_row ?bin y = (if y < R then int K + 1 else 0)" for y
    using count[of y] by (simp add: countNonZero_row_def nz c)
  have d: "0 \<le> int N div 20" by simp
  have ink: "ink_row ?bin y \<longleftrightarrow> y < R" for y
    using sz(4) d by (simp add: ink_row_def row c)
  have cb: "closed_band ?bin a e \<longleftrightarrow> a = 0 \<and> e = R" for a e
  proof
    assume h: "closed_band ?bin a e"
    then have "e < Suc R" "\<not> ink_row ?bin e" by (simp_all add: closed_band_def r)
    then have e: "e = R" by (simp add: ink)
    have "closed_band ?bin a R \<longleftrightarrow> a = 0"
      using sz(1) by (intro closed_band_unique) (simp_all add: ink r)
    with h e show "a = 0 \<and> e = R" by simp
  next
    assume "a = 0 \<and> e = R"
    then show "closed_band ?bin a e" using sz(1) by (simp add: closed_band_def ink r)
  qed
  have R0: "\<exists>yy. yy < R" using sz(1) by (intro exI[of _ 0]) simp
  have cols: "band_columns ?bin 0 R = {x. x < K \<or> x = N - 1}"
    using sz KN R0 by (auto simp: band_columns_def nz c)
  have fin: "finite {x. x < K \<or> x = N - 1}"
    by (rule finite_subset[of _ "{..<N}"]) (use KN in auto)
  have mn: "Min (band_columns ?bin 0 R) = 0"
    unfolding cols using fin sz(2) by (intro Min_eqI) auto
  have mx: "Max (band_columns ?bin 0 R) = N - 1"
    unfolding cols using fin sz(3) by (intro Max_eqI) auto
  have kb: "kept_band ?bin a e \<longleftrightarrow> a = 0 \<and> e = R" for a e
    using sz by (auto simp: kept_band_def cb mn mx)
  have bb: "band_box ?bin 0 R = ?b"
    using sz by (simp add: band_box_def mn mx)
  from segment_lines_ok[OF ne ch, of otsu "[]"]
  obtain boxes where e: "segment_lines otsu m [] = (boxes, [])" by blast
  from segment_lines_set[OF ne ch, of otsu "[]"]
  have s: "set boxes = {?b}" and so: "sorted_wrt (\<lambda>b b'. box_y b + box_h b < box_y b') boxes"
    using bb by (auto simp: e kb)
  have boxes: "boxes = [?b]"
    using s so by (rule singleton_list) (use sz in simp)
  have roi: "mat_roi m ?b = Inr (crop m ?b)"
    by (simp add: mat_roi_def r c)
  let ?bin2 = "threshold_otsu_inv otsu (crop m ?b)"
  have rc: "rows (crop m ?b) = R" "cols (crop m ?b) = N" by (simp_all add: crop_def)
  have nz2: "at_uchar ?bin2 y x 0 \<noteq> 0 \<longleftrightarrow> y < R \<and> (x < K \<or> x = N - 1)" for y x
    by (simp add: threshold_otsu_inv_def threshold_binary_inv_def crop_def px lv lv2)
  have row2: "countNonZero_row ?bin2 y = (if y < R then int K + 1 else 0)" for y
    using count[of y] by (simp add: countNonZero_row_def nz2 rc)
  have cnt: "countNonZero ?bin2 = int R * (int K + 1)"
    using sum_list_const[of "[0..<R]" "countNonZero_row ?bin2" "int K + 1"]
    by (simp add: countNonZero_def rc row2)
  show "segment_with_confidence otsu m [] =
           Inr ([\<lparr>box = ?b,
                  confidence =
                    (if to_int32 (int R * int N) = 0 then NonFinite
                     else Finite (real_of_int (to_int32 (int R * (int K + 1))) /
                                  real_of_int (to_int32 (int R * int N))))\<rparr>], [])"
    by (simp add: segment_with_confidence_def e boxes score_step_def roi Let_def cnt rc)
  have "int (card (foreground otsu (crop m ?b))) = int R * (int K + 1)"
    using countNonZero_card[of otsu "crop m ?b"] by (simp add: cnt)
  then have "real (card (foreground otsu (crop m ?b))) = real_of_int (int R * (int K + 1))"
    by (metis of_int_of_nat_eq)
  then show "density otsu m ?b = real_of_int (int R * (int K + 1)) / real_of_int (int N * int R)"
    by (simp add: density_def)
qed

text \<open>
  Claim C7, on the code. The page of 2049 rows of 1048576 pixels has one line region, of
  1048576 by 2048 pixels. Its foreground density is 1073743872 / 2147483648, a little
  above one half. The area, 2^31, does not fit an \<open>int\<close>: the product wraps to -2^31, and
  the confidence returned is 1073743872 / -2147483648. It is negative, so outside
  [0, 1], and it is not the foreground count over the area.
\<close>

theorem scored_segmentation_overflow:
  "segment_with_confidence otsu_mid giant_page [] =
     Inr ([\<lparr>box = Box 0 0 1048576 2048, confidence = Finite (- (1073743872 / 2147483648))\<rparr>], []) \<and>
   density otsu_mid giant_page (Box 0 0 1048576 2048) = 1073743872 / 2147483648"
proof -
  have h: "rows giant_page = Suc 2048" "cols giant_page = 1048576" "channels giant_page = 1"
    "\<And>y x. at_uchar giant_page y x 0 =
       (if y < 2048 \<and> (x < 524288 \<or> x = 1048576 - 1) then 0 else 255)"
    "\<And>m. otsu_mid m < 255"
    "(8::nat) \<le> 2048" "(0::nat) < 524288" "(524288::nat) < 1048576 - 1"
    "int 1048576 div 20 < int 524288 + 1"
    by (simp_all add: giant_page_def otsu_mid_def)
  note p = half_band_page[where m = giant_page and R = 2048 and N = 1048576 and K = 524288
      and otsu = otsu_mid, OF h]
  from p(1) have "segment_with_confidence otsu_mid giant_page [] =
     Inr ([\<lparr>box = Box 0 0 1048576 2048, confidence = Finite (- (1073743872 / 2147483648))\<rparr>], [])"
    by (simp add: to_int32_def)
  moreover from p(2) have "density otsu_mid giant_page (Box 0 0 1048576 2048) = 1073743872 / 2147483648"
    by simp
  ultimately show ?thesis by blast
qed

section \<open>Proofs: batch segmentation\<close>

lemma segment_lines_err_irrelevant:
  "segment_lines otsu img e = segment_lines otsu img e'"
  by (simp add: segment_lines_def)

lemma segment_lines_any_depth_ok:
  assumes "mat_empty (raster img) \<or> channels (raster img) \<noteq> 1 \<or> elem_depth img = CV_8U"
  shows "segment_lines_any_depth otsu img e = Inr (segment_lines otsu (raster img) e)"
  using assms by (auto simp: segment_lines_any_depth_def segment_lines_def)

lemma segment_lines_any_depth_raises:
  assumes "\<not> mat_empty (raster img)" "channels (raster img) = 1" "elem_depth img \<noteq> CV_8U"
  shows "segment_lines_any_depth otsu img e = Inl (Exception ''threshold: THRESH_OTSU expects an 8-bit image'')"
  using assms by (simp add: segment_lines_any_depth_def)

lemma batch_fold:
  assumes "length rs = n" "length es = n" "\<forall>i\<in>set sched. i < n"
    and "\<forall>i\<in>set sched. mat_empty (raster (imgs ! i)) \<or> channels (raster (imgs ! i)) \<noteq> 1 \<or>
                           elem_depth (imgs ! i) = CV_8U"
  shows "fold (batch_iteration otsu imgs) sched (Inr (rs, es)) =
           Inr (map (\<lambda>i. if i \<in> set sched then fst (segment_lines otsu (raster (imgs ! i)) []) else rs ! i) [0..<n],
                map (\<lambda>i. if i \<in> set sched then snd (segment_lines otsu (raster (imgs ! i)) []) else es ! i) [0..<n])"
  using assms
proof (induction sched arbitrary: rs es)
  case Nil
  then show ?case by (simp add: map_nth list_eq_iff_nth_eq)
next
  case (Cons j sched)
  let ?r = "fst (segment_lines otsu (raster (imgs ! j)) [])"
  let ?e = "snd (segment_lines otsu (raster (imgs ! j)) [])"
  from Cons.prems(4) have "segment_lines_any_depth otsu (imgs ! j) [] = Inr (?r, ?e)"
    by (simp add: segment_lines_any_depth_ok)
  then have st: "batch_iteration otsu imgs j (Inr (rs, es)) = Inr (rs[j := ?r], es[j := ?e])"
    by (simp add: batch_iteration_def case_prod_beta)
  from Cons.prems have j: "j < n" and rest: "\<forall>i\<in>set sched. i < n" by simp_all
  have "fold (batch_iteration otsu imgs) sched (Inr (rs[j := ?r], es[j := ?e])) =
          Inr (map (\<lambda>i. if i \<in> set sched then fst (segment_lines otsu (raster (imgs ! i)) []) else rs[j := ?r] ! i) [0..<n],
               map (\<lambda>i. if i \<in> set sched then snd (segment_lines otsu (raster (imgs ! i)) []) else es[j := ?e] ! i) [0..<n])"
    using Cons.prems rest by (intro Cons.IH) simp_all
  moreover have "(if i \<in> set sched then fst (segment_lines otsu (raster (imgs ! i)) []) else rs[j := ?r] ! i) =
                 (if i \<in> set (j # sched) then fst (segment_lines otsu (raster (imgs ! i)) []) else rs ! i)"
    if "i < n" for i using that Cons.prems(1) by (auto simp: nth_list_update)
  moreover have "(if i \<in> set sched then snd (segment_lines otsu (raster (imgs ! i)) []) else es[j := ?e] ! i) =
                 (if i \<in> set (j # sched) then snd (segment_lines otsu (raster (imgs ! i)) []) else es ! i)"
    if "i < n" for i using that Cons.prems(2) by (auto simp: nth_list_update)
  ultimately show ?case
    by (simp add: st del: set_simps)
qed

lemma fold_batch_raised:
  "fold (batch_iteration otsu imgs) sched (Inl e) = Inl e"
  by (induction sched) (simp_all add: batch_iteration_def)

lemma fold_batch_raises:
  assumes "i \<in> set sched" "\<not> mat_empty (raster (imgs ! i))" "channels (raster (imgs ! i)) = 1"
    "elem_depth (imgs ! i) \<noteq> CV_8U"
  shows "\<exists>e. fold (batch_iteration otsu imgs) sched s = Inl e"
  using assms(1)
proof (induction sched arbitrary: s)
  case Nil
  then show ?case by simp
next
  case (Cons j sched)
  show ?case
  proof (cases "batch_iteration otsu imgs j s")
    case (Inl e)
    then show ?thesis by (simp add: fold_batch_raised)
  next
    case (Inr p)
    have "j \<noteq> i"
    proof
      assume "j = i"
      with segment_lines_any_depth_raises[OF assms(2,3,4), of otsu "[]"]
      have "\<exists>e. batch_iteration otsu imgs j s = Inl e"
        by (cases s) (auto simp: batch_iteration_def)
      with Inr show False by simp
    qed
    with Cons.prems have "i \<in> set sched" by simp
    from Cons.IH[OF this] Inr show ?thesis by simp
  qed
qed

text \<open>
  What holds of the batch while every image is empty, not single-channel, or 8-bit:
  whatever order the loop runs its iterations in, both lists have one slot per image,
  slot \<open>i\<close> holds the regions and the message of \<open>segment_lines\<close> on image \<open>i\<close> alone, an empty
  or not single-channel image leaves the usage error and no region in its own slot, and
  every other slot has an empty message.
\<close>

lemma segment_batch_isolates:
  assumes "set schedule = {..<length imgs}"
    and "\<forall>img\<in>set imgs. mat_empty (raster img) \<or> channels (raster img) \<noteq> 1 \<or> elem_depth img = CV_8U"
  shows "\<exists>results errors.
           segment_batch otsu schedule imgs out_errors = Inr (results, errors) \<and>
           length results = length imgs \<and> length errors = length imgs \<and>
           (\<forall>i<length imgs.
              (results ! i, errors ! i) = segment_lines otsu (raster (imgs ! i)) e \<and>
              (mat_empty (raster (imgs ! i)) \<or> channels (raster (imgs ! i)) \<noteq> 1 \<longrightarrow>
                 results ! i = [] \<and> errors ! i = ''Input image must be non-empty and grayscale'') \<and>
              (\<not> mat_empty (raster (imgs ! i)) \<and> channels (raster (imgs ! i)) = 1 \<longrightarrow> errors ! i = []))"
proof -
  let ?results = "map (\<lambda>i. fst (segment_lines otsu (raster (imgs ! i)) e)) [0..<length imgs]"
  let ?errors = "map (\<lambda>i. snd (segment_lines otsu (raster (imgs ! i)) e)) [0..<length imgs]"
  have l: "length (vector_resize (length imgs) out_errors) = length imgs"
    by (simp add: vector_resize_def)
  have s: "\<forall>i\<in>set schedule. i < length imgs" using assms(1) by simp
  then have d: "\<forall>i\<in>set schedule. mat_empty (raster (imgs ! i)) \<or> channels (raster (imgs ! i)) \<noteq> 1 \<or>
                           elem_depth (imgs ! i) = CV_8U"
    using assms(2) by simp
  have irr: "segment_lines otsu m [] = segment_lines otsu m e" for m
    by (rule segment_lines_err_irrelevant)
  from batch_fold[OF _ l s d, of "replicate (length imgs) []" otsu]
  have eq: "segment_batch otsu schedule imgs out_errors = Inr (?results, ?errors)"
    using assms(1) by (simp add: segment_batch_def irr cong: map_cong)
  have len: "length ?results = length imgs" "length ?errors = length imgs" by simp_all
  have pt: "\<forall>i<length imgs.
              (?results ! i, ?errors ! i) = segment_lines otsu (raster (imgs ! i)) e \<and>
              (mat_empty (raster (imgs ! i)) \<or> channels (raster (imgs ! i)) \<noteq> 1 \<longrightarrow>
                 ?results ! i = [] \<and> ?errors ! i = ''Input image must be non-empty and grayscale'') \<and>
              (\<not> mat_empty (raster (imgs ! i)) \<and> channels (raster (imgs ! i)) = 1 \<longrightarrow> ?errors ! i = [])"
  proof (intro allI impI)
    fix i assume i: "i < length imgs"
    let ?m = "raster (imgs ! i)"
    have n: "?results ! i = fst (segment_lines otsu ?m e)" "?errors ! i = snd (segment_lines otsu ?m e)"
      using i by simp_all
    have g: "segment_lines otsu ?m e = ([], ''Input image must be non-empty and grayscale'')"
      if "mat_empty ?m \<or> channels ?m \<noteq> 1"
      using that by (auto simp: segment_lines_def)
    have ok: "snd (segment_lines otsu ?m e) = []" if "\<not> mat_empty ?m \<and> channels ?m = 1"
      using that segment_lines_ok[of ?m otsu e] by auto
    show "(?results ! i, ?errors ! i) = segment_lines otsu ?m e \<and>
              (mat_empty ?m \<or> channels ?m \<noteq> 1 \<longrightarrow>
                 ?results ! i = [] \<and> ?errors ! i = ''Input image must be non-empty and grayscale'') \<and>
              (\<not> mat_empty ?m \<and> channels ?m = 1 \<longrightarrow> ?errors ! i = [])"
      unfolding n using g ok by auto
  qed
  show ?thesis
    by (intro exI[of _ ?results] exI[of _ ?errors] conjI) (rule eq len pt)+
qed

text \<open>The one-line page and the empty image, run in reverse order, with a stale message
  in the error vector passed in.\<close>

lemma segment_batch_sample:
  "segment_batch otsu_mid [1, 0] [gray8 page_one_line, gray8 no_image] [''stale''] =
     Inr ([[Box 1 1 6 8], []], [[], ''Input image must be non-empty and grayscale''])"
  by code_simp

text \<open>One non-empty single-channel image that is not 8-bit, anywhere in the batch, and
  the call has no result.\<close>

lemma segment_batch_loses_all:
  assumes "i \<in> set schedule" "\<not> mat_empty (raster (imgs ! i))" "channels (raster (imgs ! i)) = 1"
    "elem_depth (imgs ! i) \<noteq> CV_8U"
  shows "\<exists>e. segment_batch otsu schedule imgs out_errors = Inl e"
  unfolding segment_batch_def using assms by (rule fold_batch_raises)

text \<open>
  Claim C3, on the code. The batch of the one-line page and a page of 32-bit
  floating-point elements. On the first image alone \<open>segment_lines\<close> returns its one region
  and no error. In the batch the second image passes the guard, \<open>cv::threshold\<close> raises, and
  the exception leaves the loop: the call returns neither list, whichever of the two
  iterations runs first. The error is not confined to index 1, and the result of index
  0 is lost.
\<close>

theorem segment_batch_wrong_depth:
  "segment_lines_any_depth otsu_mid (gray8 page_one_line) [] = Inr ([Box 1 1 6 8], []) \<and>
   segment_batch otsu_mid [0, 1] [gray8 page_one_line, float_page] [] =
     Inl (Exception ''threshold: THRESH_OTSU expects an 8-bit image'') \<and>
   segment_batch otsu_mid [1, 0] [gray8 page_one_line, float_page] [] =
     Inl (Exception ''threshold: THRESH_OTSU expects an 8-bit image'')"
  by code_simp

section \<open>Proofs: the preprocessing stages\<close>

lemma tesseract_strategies_total:
  "tesseract_denoise L C img =
     Inr (case mat_to_pix L C img of Inr (Some pix) \<Rightarrow> apply_tesseract_denoising L pix | _ \<Rightarrow> img)"
  "tesseract_adaptive_threshold L C img =
     Inr (case mat_to_pix L C img of Inr (Some pix) \<Rightarrow> apply_tesseract_thresholding L pix | _ \<Rightarrow> img)"
  "tesseract_deskew L C img =
     Inr (case mat_to_pix L C img of Inr (Some pix) \<Rightarrow> apply_tesseract_deskewing L pix | _ \<Rightarrow> img)"
  "tesseract_dewarp L C img =
     Inr (case mat_to_pix L C img of Inr (Some pix) \<Rightarrow> apply_tesseract_dewarping L pix | _ \<Rightarrow> img)"
  by (simp_all add: tesseract_denoise_def tesseract_adaptive_threshold_def tesseract_deskew_def
      tesseract_dewarp_def then_do_def clone_def split: sum.splits option.splits)

lemma primary_total:
  "primary L C st img =
     Inr (case mat_to_pix L C img of Inr (Some pix) \<Rightarrow> primary_algorithm L st pix | _ \<Rightarrow> img)"
  by (cases st) (simp_all add: tesseract_strategies_total split: sum.splits option.splits)

lemma hybrid_stage_available:
  "tesseract_available hp \<Longrightarrow> hybrid_stage L C hp st img = primary L C st img"
  by (cases st)
     (simp_all add: smart_denoise_def smart_adaptive_threshold_def smart_deskew_def smart_dewarp_def
        tesseract_strategies_total)

lemma hybrid_stage_unavailable:
  "\<not> tesseract_available hp \<Longrightarrow> hybrid_stage L C hp st img = fallback C st img"
  by (cases st)
     (simp_all add: smart_denoise_def smart_adaptive_threshold_def smart_deskew_def smart_dewarp_def
        invoice_denoise_def adaptive_gaussian_threshold_def deskew_def dewarp_def)

lemma largest_contour_lt:
  assumes "contours \<noteq> []"
  shows "largest_contour C contours < length contours"
proof -
  have "fold (\<lambda>i largest. if cv_contourArea C (contours ! i) > cv_contourArea C (contours ! largest) then i
             else largest) is l < length contours"
    if "l < length contours" "\<forall>i\<in>set is. i < length contours" for "is" l
    using that by (induction "is" arbitrary: l) auto
  from this[of 0 "[1..<length contours]"] assms show ?thesis
    by (simp add: largest_contour_def)
qed

text \<open>The two states of the hybrid preprocessor, and what the tracing Leptonica does to
  the size of an image.\<close>

lemma hybrid_states:
  "tesseract_available hybrid_with_tesseract" "\<not> tesseract_available hybrid_without_tesseract"
  by (simp_all add: hybrid_with_tesseract_def hybrid_without_tesseract_def
      HybridPreprocessor_init_def is_available_def)

lemma mat_to_pix_trace:
  assumes "\<not> mat_empty m" "channels m = 1"
  shows "\<exists>p. mat_to_pix leptonica_trace C m = Inr (Some p) \<and>
             pix_w p = cols m \<and> pix_h p = rows m \<and> pix_d p = 8"
  using assms by (simp add: mat_to_pix_def mat_to_pix_gray_def leptonica_trace_def)

lemma apply_trace:
  assumes "pix_d p = 8"
  shows "rows (apply_tesseract_denoising leptonica_trace p) = 2 * (pix_h p + 2)"
    "cols (apply_tesseract_denoising leptonica_trace p) = pix_w p"
    "channels (apply_tesseract_denoising leptonica_trace p) = 1"
    "rows (apply_tesseract_thresholding leptonica_trace p) = pix_h p + 1 + (pix_w p + 1)"
    "cols (apply_tesseract_thresholding leptonica_trace p) = pix_w p"
    "channels (apply_tesseract_thresholding leptonica_trace p) = 1"
    "rows (apply_tesseract_deskewing leptonica_trace p) = 3 * pix_h p"
    "cols (apply_tesseract_deskewing leptonica_trace p) = pix_w p"
    "channels (apply_tesseract_deskewing leptonica_trace p) = 1"
    "rows (apply_tesseract_dewarping leptonica_trace p) = pix_h p - 1"
    "cols (apply_tesseract_dewarping leptonica_trace p) = pix_w p"
    "channels (apply_tesseract_dewarping leptonica_trace p) = 1"
  using assms
  by (simp_all add: apply_tesseract_denoising_def apply_tesseract_thresholding_def
      apply_tesseract_deskewing_def apply_tesseract_dewarping_def pix_to_mat_def leptonica_trace_def
      Let_def nat_diff_distrib')

text \<open>
  Claim C1, as far as the code keeps it. While the Tesseract strategy is available a
  stage never raises, and when the strategy's image conversion succeeds the stage
  returns the output of the strategy's algorithm. While it is unavailable the stage is
  the fallback strategy, exceptions included: an exception of the fallback reaches the
  caller, and the input image is not returned in its place.
\<close>

theorem strategy_stage_contract:
  "(tesseract_available hp \<longrightarrow>
      (\<exists>result. hybrid_stage L C hp st img = Inr result) \<and>
      (\<forall>pix. mat_to_pix L C img = Inr (Some pix) \<longrightarrow>
         hybrid_stage L C hp st img = Inr (primary_algorithm L st pix))) \<and>
   (\<not> tesseract_available hp \<longrightarrow> hybrid_stage L C hp st img = fallback C st img)"
  using hybrid_stage_available[of hp L C st img] hybrid_stage_unavailable[of hp L C st img]
    primary_total[of L C st img]
  by auto

theorem strategy_stage_contract_witness:
  "tesseract_available hybrid_with_tesseract \<and>
   (\<exists>pix. mat_to_pix leptonica_trace opencv_trace page_one_line = Inr (Some pix) \<and>
      hybrid_stage leptonica_trace opencv_trace hybrid_with_tesseract Threshold page_one_line =
        Inr (primary_algorithm leptonica_trace Threshold pix) \<and>
      rows (primary_algorithm leptonica_trace Threshold pix) = 20 \<and>
      cols (primary_algorithm leptonica_trace Threshold pix) = 8) \<and>
   \<not> tesseract_available hybrid_without_tesseract \<and>
   fallback opencv_trace Threshold page_one_line = Inr (page_one_line\<lparr>rows := 41\<rparr>) \<and>
   hybrid_stage leptonica_trace opencv_trace hybrid_without_tesseract Threshold page_one_line =
     Inr (page_one_line\<lparr>rows := 41\<rparr>)"
proof -
  have n: "\<not> mat_empty page_one_line" "channels page_one_line = 1"
    "rows page_one_line = 10" "cols page_one_line = 8"
    by (simp_all add: page_one_line_def mat_empty_def)
  from mat_to_pix_trace[OF n(1,2), of opencv_trace] n
  obtain pix where p: "mat_to_pix leptonica_trace opencv_trace page_one_line = Inr (Some pix)"
    "pix_w pix = 8" "pix_h pix = 10" "pix_d pix = 8" by auto
  from strategy_stage_contract[where hp = hybrid_with_tesseract and L = leptonica_trace
      and C = opencv_trace and st = Threshold and img = page_one_line] hybrid_states(1) p(1)
  have a: "hybrid_stage leptonica_trace opencv_trace hybrid_with_tesseract Threshold page_one_line =
          Inr (primary_algorithm leptonica_trace Threshold pix)"
    by blast
  have r: "rows (primary_algorithm leptonica_trace Threshold pix) = 20"
    "cols (primary_algorithm leptonica_trace Threshold pix) = 8"
    using apply_trace[OF p(4)] p(2,3) by simp_all
  have f: "fallback opencv_trace Threshold page_one_line = Inr (page_one_line\<lparr>rows := 41\<rparr>)"
    by (simp add: adaptive_gaussian_threshold_def opencv_trace_def page_one_line_def mat_empty_def)
  from strategy_stage_contract[where hp = hybrid_without_tesseract and L = leptonica_trace
      and C = opencv_trace and st = Threshold and img = page_one_line] hybrid_states(2)
  have "hybrid_stage leptonica_trace opencv_trace hybrid_without_tesseract Threshold page_one_line =
          fallback opencv_trace Threshold page_one_line"
    by blast
  with f have u: "hybrid_stage leptonica_trace opencv_trace hybrid_without_tesseract Threshold page_one_line =
     Inr (page_one_line\<lparr>rows := 41\<rparr>)" by simp
  from p(1) a r have "\<exists>pix. mat_to_pix leptonica_trace opencv_trace page_one_line = Inr (Some pix) \<and>
      hybrid_stage leptonica_trace opencv_trace hybrid_with_tesseract Threshold page_one_line =
        Inr (primary_algorithm leptonica_trace Threshold pix) \<and>
      rows (primary_algorithm leptonica_trace Threshold pix) = 20 \<and>
      cols (primary_algorithm leptonica_trace Threshold pix) = 8" by blast
  with hybrid_states f u show ?thesis by blast
qed

text \<open>
  Claim C1 as stated fails in both states. With the Tesseract strategy available, on a
  colour page and an OpenCV whose colour conversion raises: the exception is raised inside
  the primary strategy, the fallback strategy would return a denoised image of 26 rows,
  and the Denoise stage returns the 10-row input: the fallback is not used. With the
  strategy unavailable, the Threshold stage on a colour page runs \<open>cv::adaptiveThreshold\<close>,
  which raises, and the exception reaches the caller; the input image is not returned.
\<close>

theorem strategy_stage_claim_fails:
  "tesseract_available hybrid_with_tesseract \<and>
   mat_to_pix leptonica_trace opencv_gray_raises color_page = Inl (Exception ''cvtColor failed'') \<and>
   fallback opencv_gray_raises Denoise color_page = Inr (color_page\<lparr>rows := 26\<rparr>) \<and>
   hybrid_stage leptonica_trace opencv_gray_raises hybrid_with_tesseract Denoise color_page =
     Inr color_page \<and>
   rows color_page = 10 \<and>
   \<not> tesseract_available hybrid_without_tesseract \<and>
   hybrid_stage leptonica_null opencv_strict hybrid_without_tesseract Threshold color_page =
     Inl (Exception ''adaptiveThreshold: 8-bit single-channel image expected'')"
proof -
  have m: "mat_to_pix leptonica_trace opencv_gray_raises color_page = Inl (Exception ''cvtColor failed'')"
    by (simp add: mat_to_pix_def then_do_def cvtColor_BGR2GRAY_def opencv_gray_raises_def
        opencv_trace_def color_page_def mat_empty_def)
  have f: "fallback opencv_gray_raises Denoise color_page = Inr (color_page\<lparr>rows := 26\<rparr>)"
    by (simp add: invoice_denoise_def then_do_def opencv_gray_raises_def opencv_trace_def color_page_def)
  have h: "hybrid_stage leptonica_trace opencv_gray_raises hybrid_with_tesseract Denoise color_page =
     Inr color_page"
    by (simp add: smart_denoise_def tesseract_denoise_def m then_do_def clone_def hybrid_states)
  have u: "hybrid_stage leptonica_null opencv_strict hybrid_without_tesseract Threshold color_page =
     Inl (Exception ''adaptiveThreshold: 8-bit single-channel image expected'')"
    by (simp add: smart_adaptive_threshold_def hybrid_states opencv_strict_def color_page_def mat_empty_def)
  have r: "rows color_page = 10" by (simp add: color_page_def)
  from m f h u r hybrid_states show ?thesis by blast
qed

text \<open>The four assignments of the pipeline in each state of the preprocessor, and the
  pipeline after the grayscale and resize steps.\<close>

lemma pipeline_available:
  assumes "tesseract_available hp"
  shows "enhanced_preprocess_pipeline L C hp x =
           then_do (then_do (then_do (primary L C Denoise x) (primary L C Threshold))
             (primary L C Deskew)) (primary L C Dewarp)"
  using hybrid_stage_available[OF assms, of L C Denoise] hybrid_stage_available[OF assms, of L C Threshold]
    hybrid_stage_available[OF assms, of L C Deskew] hybrid_stage_available[OF assms, of L C Dewarp]
  by (simp add: enhanced_preprocess_pipeline_def then_do_def split: sum.splits)

lemma pipeline_unavailable:
  assumes "\<not> tesseract_available hp"
  shows "enhanced_preprocess_pipeline L C hp x =
           then_do (then_do (then_do (invoice_denoise C x) (adaptive_gaussian_threshold C))
             (deskew C)) (dewarp C)"
  using hybrid_stage_unavailable[OF assms, of L C Denoise] hybrid_stage_unavailable[OF assms, of L C Threshold]
    hybrid_stage_unavailable[OF assms, of L C Deskew] hybrid_stage_unavailable[OF assms, of L C Dewarp]
  by (simp add: enhanced_preprocess_pipeline_def then_do_def split: sum.splits)

lemma image_then_pipeline:
  "enhanced_preprocess_image L C hp img =
     then_do (then_do (grayscale_if_needed C img) (\<lambda>gray. resize_image C gray (3 / 2)))
       (enhanced_preprocess_pipeline L C hp)"
  by (simp add: enhanced_preprocess_image_def grayscale_if_needed_def then_do_def split: sum.splits)

lemma resize_trace:
  "then_do (grayscale_if_needed opencv_trace page_one_line) (\<lambda>gray. resize_image opencv_trace gray (3 / 2)) =
     Inr (page_one_line\<lparr>rows := 15, cols := 12\<rparr>)"
  by (simp add: grayscale_if_needed_def then_do_def resize_image_def opencv_trace_def
      page_one_line_def mat_empty_def)

text \<open>
  Claim C5, as far as the code keeps it. The enhanced pipeline converts a three-channel
  image to grayscale, resizes by 1.5, and then runs the hybrid stages Denoise,
  Threshold, Deskew, Dewarp in that order, each on the result of the one before; the
  first exception ends it. While the Tesseract strategy is unavailable the four stages
  are the baseline denoising, adaptive Gaussian threshold, deskew and dewarp. While it
  is available no stage raises, and when the image conversion succeeds at every stage
  the result is what the four Tesseract algorithms produce one after the other.
\<close>

theorem enhanced_pipeline_order:
  "enhanced_preprocess_image L C hp img =
     then_do (then_do (grayscale_if_needed C img) (\<lambda>gray. resize_image C gray (3 / 2)))
       (run_stages L C hp [Denoise, Threshold, Deskew, Dewarp]) \<and>
   (\<not> tesseract_available hp \<longrightarrow>
      enhanced_preprocess_image L C hp img =
        then_do (then_do (then_do (then_do
          (then_do (grayscale_if_needed C img) (\<lambda>gray. resize_image C gray (3 / 2)))
          (invoice_denoise C)) (adaptive_gaussian_threshold C)) (deskew C)) (dewarp C)) \<and>
   (tesseract_available hp \<longrightarrow>
      (\<forall>resized.
         then_do (grayscale_if_needed C img) (\<lambda>gray. resize_image C gray (3 / 2)) = Inr resized \<longrightarrow>
         (\<exists>result. enhanced_preprocess_image L C hp img = Inr result) \<and>
         (\<forall>p0 p1 p2 p3.
            mat_to_pix L C resized = Inr (Some p0) \<and>
            mat_to_pix L C (apply_tesseract_denoising L p0) = Inr (Some p1) \<and>
            mat_to_pix L C (apply_tesseract_thresholding L p1) = Inr (Some p2) \<and>
            mat_to_pix L C (apply_tesseract_deskewing L p2) = Inr (Some p3) \<longrightarrow>
            enhanced_preprocess_image L C hp img = Inr (apply_tesseract_dewarping L p3))))"
proof (intro conjI impI allI)
  show "enhanced_preprocess_image L C hp img =
     then_do (then_do (grayscale_if_needed C img) (\<lambda>gray. resize_image C gray (3 / 2)))
       (run_stages L C hp [Denoise, Threshold, Deskew, Dewarp])"
    by (simp add: enhanced_preprocess_image_def enhanced_preprocess_pipeline_def run_stages_def
        grayscale_if_needed_def then_do_def split: sum.splits)
next
  assume "\<not> tesseract_available hp"
  then show "enhanced_preprocess_image L C hp img =
        then_do (then_do (then_do (then_do
          (then_do (grayscale_if_needed C img) (\<lambda>gray. resize_image C gray (3 / 2)))
          (invoice_denoise C)) (adaptive_gaussian_threshold C)) (deskew C)) (dewarp C)"
    by (simp add: image_then_pipeline pipeline_unavailable then_do_def split: sum.splits)
next
  fix resized
  assume a: "tesseract_available hp"
    and r: "then_do (grayscale_if_needed C img) (\<lambda>gray. resize_image C gray (3 / 2)) = Inr resized"
  have "enhanced_preprocess_image L C hp img = enhanced_preprocess_pipeline L C hp resized"
    unfolding image_then_pipeline r by (simp add: then_do_def)
  then show "\<exists>result. enhanced_preprocess_image L C hp img = Inr result"
    by (simp add: pipeline_available[OF a] tesseract_strategies_total then_do_def)
next
  fix resized p0 p1 p2 p3
  assume a: "tesseract_available hp"
    and r: "then_do (grayscale_if_needed C img) (\<lambda>gray. resize_image C gray (3 / 2)) = Inr resized"
    and p: "mat_to_pix L C resized = Inr (Some p0) \<and>
            mat_to_pix L C (apply_tesseract_denoising L p0) = Inr (Some p1) \<and>
            mat_to_pix L C (apply_tesseract_thresholding L p1) = Inr (Some p2) \<and>
            mat_to_pix L C (apply_tesseract_deskewing L p2) = Inr (Some p3)"
  have "enhanced_preprocess_image L C hp img = enhanced_preprocess_pipeline L C hp resized"
    unfolding image_then_pipeline r by (simp add: then_do_def)
  with p show "enhanced_preprocess_image L C hp img = Inr (apply_tesseract_dewarping L p3)"
    by (simp add: pipeline_available[OF a] tesseract_strategies_total then_do_def)
qed

theorem enhanced_pipeline_order_witness:
  "\<not> tesseract_available hybrid_without_tesseract \<and>
   enhanced_preprocess_image leptonica_trace opencv_trace hybrid_without_tesseract page_one_line =
     Inr (page_one_line\<lparr>rows := 96, cols := 12\<rparr>) \<and>
   tesseract_available hybrid_with_tesseract \<and>
   (\<exists>result. enhanced_preprocess_image leptonica_trace opencv_trace hybrid_with_tesseract page_one_line =
        Inr result \<and> rows result = 143 \<and> cols result = 12 \<and> channels result = 1)"
proof -
  note t = enhanced_pipeline_order[where L = leptonica_trace and C = opencv_trace and img = page_one_line]
  let ?resized = "page_one_line\<lparr>rows := 15, cols := 12\<rparr>"
  from t[where hp = hybrid_without_tesseract] hybrid_states(2)
  have "enhanced_preprocess_image leptonica_trace opencv_trace hybrid_without_tesseract page_one_line =
        then_do (then_do (then_do (then_do
          (then_do (grayscale_if_needed opencv_trace page_one_line) (\<lambda>gray. resize_image opencv_trace gray (3 / 2)))
          (invoice_denoise opencv_trace)) (adaptive_gaussian_threshold opencv_trace))
          (deskew opencv_trace)) (dewarp opencv_trace)"
    by blast
  also have "\<dots> = Inr (page_one_line\<lparr>rows := 96, cols := 12\<rparr>)"
    unfolding resize_trace
    by (simp add: then_do_def invoice_denoise_def adaptive_gaussian_threshold_def deskew_def dewarp_def
        largest_contour_def opencv_trace_def page_one_line_def mat_empty_def Let_def)
  finally have u: "enhanced_preprocess_image leptonica_trace opencv_trace hybrid_without_tesseract page_one_line =
     Inr (page_one_line\<lparr>rows := 96, cols := 12\<rparr>)" .
  have n0: "\<not> mat_empty ?resized" "channels ?resized = 1" "rows ?resized = 15" "cols ?resized = 12"
    by (simp_all add: page_one_line_def mat_empty_def)
  from mat_to_pix_trace[OF n0(1,2), of opencv_trace] n0
  obtain p0 where p0: "mat_to_pix leptonica_trace opencv_trace ?resized = Inr (Some p0)"
    "pix_w p0 = 12" "pix_h p0 = 15" "pix_d p0 = 8" by auto
  let ?x1 = "apply_tesseract_denoising leptonica_trace p0"
  have n1: "\<not> mat_empty ?x1" "channels ?x1 = 1" "rows ?x1 = 34" "cols ?x1 = 12"
    using apply_trace[OF p0(4)] p0(2,3) by (simp_all add: mat_empty_def)
  from mat_to_pix_trace[OF n1(1,2), of opencv_trace] n1
  obtain p1 where p1: "mat_to_pix leptonica_trace opencv_trace ?x1 = Inr (Some p1)"
    "pix_w p1 = 12" "pix_h p1 = 34" "pix_d p1 = 8" by auto
  let ?x2 = "apply_tesseract_thresholding leptonica_trace p1"
  have n2: "\<not> mat_empty ?x2" "channels ?x2 = 1" "rows ?x2 = 48" "cols ?x2 = 12"
    using apply_trace[OF p1(4)] p1(2,3) by (simp_all add: mat_empty_def)
  from mat_to_pix_trace[OF n2(1,2), of opencv_trace] n2
  obtain p2 where p2: "mat_to_pix leptonica_trace opencv_trace ?x2 = Inr (Some p2)"
    "pix_w p2 = 12" "pix_h p2 = 48" "pix_d p2 = 8" by auto
  let ?x3 = "apply_tesseract_deskewing leptonica_trace p2"
  have n3: "\<not> mat_empty ?x3" "channels ?x3 = 1" "rows ?x3 = 144" "cols ?x3 = 12"
    using apply_trace[OF p2(4)] p2(2,3) by (simp_all add: mat_empty_def)
  from mat_to_pix_trace[OF n3(1,2), of opencv_trace] n3
  obtain p3 where p3: "mat_to_pix leptonica_trace opencv_trace ?x3 = Inr (Some p3)"
    "pix_w p3 = 12" "pix_h p3 = 144" "pix_d p3 = 8" by auto
  let ?x4 = "apply_tesseract_dewarping leptonica_trace p3"
  have n4: "rows ?x4 = 143" "cols ?x4 = 12" "channels ?x4 = 1"
    using apply_trace[OF p3(4)] p3(2,3) by simp_all
  from t[where hp = hybrid_with_tesseract] hybrid_states(1) resize_trace p0(1) p1(1) p2(1) p3(1)
  have "enhanced_preprocess_image leptonica_trace opencv_trace hybrid_with_tesseract page_one_line = Inr ?x4"
    by blast
  with n4 have "\<exists>result. enhanced_preprocess_image leptonica_trace opencv_trace hybrid_with_tesseract page_one_line =
        Inr result \<and> rows result = 143 \<and> cols result = 12 \<and> channels result = 1" by blast
  with u hybrid_states show ?thesis by blast
qed

text \<open>
  Claim C5 as stated fails: the pipeline does not return a composition of stage results
  for every input image. On the empty image \<open>cv::resize\<close> raises, in the default state of
  the preprocessor. On a four-channel page, with the Tesseract strategy unavailable,
  \<open>cv::bilateralFilter\<close> raises inside the Denoise stage; the stage does not return its
  input, and the exception leaves the pipeline.
\<close>

theorem enhanced_pipeline_raises:
  "tesseract_available hybrid_with_tesseract \<and>
   enhanced_preprocess_image leptonica_trace opencv_trace hybrid_with_tesseract no_image =
     Inl (Exception ''resize: empty image'') \<and>
   \<not> tesseract_available hybrid_without_tesseract \<and>
   enhanced_preprocess_image leptonica_trace opencv_trace hybrid_without_tesseract bgra_page =
     Inl (Exception ''bilateralFilter: 1 or 3 channels expected'')"
proof -
  have a: "enhanced_preprocess_image leptonica_trace opencv_trace hybrid_with_tesseract no_image =
     Inl (Exception ''resize: empty image'')"
    by (simp add: enhanced_preprocess_image_def resize_image_def opencv_trace_def no_image_def mat_empty_def)
  have b: "enhanced_preprocess_image leptonica_trace opencv_trace hybrid_without_tesseract bgra_page =
     Inl (Exception ''bilateralFilter: 1 or 3 channels expected'')"
    by (simp add: enhanced_preprocess_image_def enhanced_preprocess_pipeline_def smart_denoise_def
        then_do_def hybrid_states resize_image_def opencv_trace_def bgra_page_def mat_empty_def)
  from a b hybrid_states show ?thesis by blast
qed

text \<open>The OpenCV code of \<open>smart_dewarp\<close> is the code of \<open>dewarp\<close>; it is reached only when the
  Tesseract strategy is unavailable.\<close>

lemma smart_dewarp_unavailable:
  "\<not> tesseract_available hp \<Longrightarrow> smart_dewarp L C hp img = dewarp C img"
  by (simp add: smart_dewarp_def dewarp_def)

text \<open>
  Claim C6. When the polygon approximation of the largest external contour does not have
  exactly 4 vertices (or there is no contour at all), \<open>dewarp\<close> returns an image with the
  rows and columns of its input, the input itself; so does \<open>smart_dewarp\<close> whenever it runs
  this contour code, that is, when the Tesseract strategy is unavailable.
\<close>

theorem dewarp_no_op:
  assumes "(if channels img = 3 then cvtColor_BGR2GRAY C img else Inr img) = Inr gray"
    and "cv_adaptiveThreshold C gray ADAPTIVE_THRESH_MEAN_C 31 10 = Inr bin"
    and "cv_findContours C bin = Inr contours"
    and "contours = [] \<or>
         (\<exists>quad. cv_approxPolyDP C (contours ! largest_contour C contours) 20 True = Inr quad \<and>
                 length quad \<noteq> 4)"
  shows "(\<exists>out. dewarp C img = Inr out \<and> rows out = rows img \<and> cols out = cols img) \<and>
         (\<not> tesseract_available hp \<longrightarrow>
            (\<exists>out. smart_dewarp L C hp img = Inr out \<and> rows out = rows img \<and> cols out = cols img))"
proof -
  from assms have "dewarp C img = Inr img"
    by (auto simp: dewarp_def then_do_def clone_def)
  then show ?thesis by (simp add: smart_dewarp_unavailable)
qed

theorem dewarp_no_op_witness:
  "(if channels page_one_line = 3 then cvtColor_BGR2GRAY opencv_strict page_one_line
    else Inr page_one_line) = Inr page_one_line \<and>
   cv_adaptiveThreshold opencv_strict page_one_line ADAPTIVE_THRESH_MEAN_C 31 10 = Inr page_one_line \<and>
   cv_findContours opencv_strict page_one_line = Inr [[(1, 1), (6, 1), (6, 8)]] \<and>
   cv_approxPolyDP opencv_strict
     ([[(1, 1), (6, 1), (6, 8)]] ! largest_contour opencv_strict [[(1, 1), (6, 1), (6, 8)]]) 20 True =
     Inr [(1, 1), (6, 1), (6, 8)] \<and>
   \<not> tesseract_available hybrid_without_tesseract \<and>
   (\<exists>out. dewarp opencv_strict page_one_line = Inr out \<and>
      rows out = rows page_one_line \<and> cols out = cols page_one_line) \<and>
   (\<exists>out. smart_dewarp leptonica_null opencv_strict hybrid_without_tesseract page_one_line = Inr out \<and>
      rows out = rows page_one_line \<and> cols out = cols page_one_line)"
proof -
  have g: "(if channels page_one_line = 3 then cvtColor_BGR2GRAY opencv_strict page_one_line
            else Inr page_one_line) = Inr page_one_line"
    by (simp add: page_one_line_def)
  have t: "cv_adaptiveThreshold opencv_strict page_one_line ADAPTIVE_THRESH_MEAN_C 31 10 = Inr page_one_line"
    by (simp add: opencv_strict_def page_one_line_def mat_empty_def)
  have f: "cv_findContours opencv_strict page_one_line = Inr [[(1, 1), (6, 1), (6, 8)]]"
    by (simp add: opencv_strict_def)
  have q: "cv_approxPolyDP opencv_strict
     ([[(1, 1), (6, 1), (6, 8)]] ! largest_contour opencv_strict [[(1, 1), (6, 1), (6, 8)]]) 20 True =
     Inr [(1, 1), (6, 1), (6, 8)]"
    by (simp add: opencv_strict_def largest_contour_def)
  have l: "length [(1::int, 1::int), (6, 1), (6, 8)] \<noteq> 4" by simp
  from q l have d: "[[(1, 1), (6, 1), (6, 8)]] = ([] :: (int \<times> int) list list) \<or>
      (\<exists>quad. cv_approxPolyDP opencv_strict
           ([[(1, 1), (6, 1), (6, 8)]] ! largest_contour opencv_strict [[(1, 1), (6, 1), (6, 8)]]) 20 True =
           Inr quad \<and> length quad \<noteq> 4)"
    by blast
  have u: "\<not> tesseract_available hybrid_without_tesseract"
    by (simp add: hybrid_without_tesseract_def HybridPreprocessor_init_def)
  from dewarp_no_op[OF g t f d, where hp = hybrid_without_tesseract and L = leptonica_null]
    g t f q u
  show ?thesis by blast
qed

section \<open>Proofs: field extraction\<close>

text \<open>
  Claim C4, on the code. On the sample text of the source's own test the extractor
  returns the invoice number \<open>INV12345\<close> and the date \<open>2023-05-12\<close>, but the total it returns
  is \<open>1,23\<close>: the pattern takes the digits up to the first separator and two digits after
  it. The test, like the claim, expects \<open>1,234.56\<close>.
\<close>

theorem extract_invoice_fields_sample:
  "extract_invoice_fields sample_text ''invoice_number'' = Some ''INV12345'' \<and>
   extract_invoice_fields sample_text ''date'' = Some ''2023-05-12'' \<and>
   extract_invoice_fields sample_text ''total'' = Some ''1,23''"
  by code_simp

end
